theory Spec2Isabelle
  imports Main
begin


section \<open>JavaScript strings\<close>

text \<open>
  A JavaScript string is modelled as a \<^typ>\<open>string\<close> holding its UTF-8 encoding. The
  operations the program uses (\<open>split\<close> on an ASCII separator, \<open>join\<close>, \<open>startsWith\<close>,
  concatenation, \<open>trim\<close>) act on the encoding exactly as they act on the text, because an
  ASCII byte never occurs inside a multi-byte sequence.
\<close>

text \<open>\<open>xs.join(sep)\<close>.\<close>

fun join :: "string \<Rightarrow> string list \<Rightarrow> string" where
  "join sep [] = []"
| "join sep [x] = x"
| "join sep (x # y # ys) = x @ sep @ join sep (y # ys)"

text \<open>\<open>s.split(c)\<close> for a one-character separator: never the empty array.\<close>

fun split_on :: "char \<Rightarrow> string \<Rightarrow> string list" where
  "split_on c [] = [[]]"
| "split_on c (x # xs) =
     (if x = c then [] # split_on c xs
      else (x # hd (split_on c xs)) # tl (split_on c xs))"

text \<open>\<open>s.split(/\r?\n/)\<close>: a line ends at LF or at CR LF; a lone CR is an ordinary character.\<close>

fun split_lines :: "string \<Rightarrow> string list" where
  "split_lines [] = [[]]"
| "split_lines [x] = (if x = CHR 0x0A then [[], []] else [[x]])"
| "split_lines (x # y # ys) =
     (if x = CHR 0x0A then [] # split_lines (y # ys)
      else if x = CHR 0x0D \<and> y = CHR 0x0A then [] # split_lines ys
      else (x # hd (split_lines (y # ys))) # tl (split_lines (y # ys)))"

text \<open>
  \<open>s.trim()\<close> removes the ECMAScript white space and line terminators from both ends:
  U+0009..U+000D, U+0020, U+00A0, U+1680, U+2000..U+200A, U+2028, U+2029, U+202F, U+205F,
  U+3000 and U+FEFF, here by their UTF-8 encodings of one, two and three bytes.
\<close>

definition ws1 :: "char \<Rightarrow> bool" where
  "ws1 a \<longleftrightarrow> a \<in> set [CHR 0x09, CHR 0x0A, CHR 0x0B, CHR 0x0C, CHR 0x0D, CHR 0x20]"

definition ws2 :: "char \<Rightarrow> char \<Rightarrow> bool" where
  "ws2 a b \<longleftrightarrow> a = CHR 0xC2 \<and> b = CHR 0xA0"

definition ws3 :: "char \<Rightarrow> char \<Rightarrow> char \<Rightarrow> bool" where
  "ws3 a b c \<longleftrightarrow>
     (a = CHR 0xE1 \<and> b = CHR 0x9A \<and> c = CHR 0x80) \<or>
     (a = CHR 0xE2 \<and> b = CHR 0x80 \<and>
        c \<in> set [CHR 0x80, CHR 0x81, CHR 0x82, CHR 0x83, CHR 0x84, CHR 0x85, CHR 0x86,
                  CHR 0x87, CHR 0x88, CHR 0x89, CHR 0x8A, CHR 0xA8, CHR 0xA9, CHR 0xAF]) \<or>
     (a = CHR 0xE2 \<and> b = CHR 0x81 \<and> c = CHR 0x9F) \<or>
     (a = CHR 0xE3 \<and> b = CHR 0x80 \<and> c = CHR 0x80) \<or>
     (a = CHR 0xEF \<and> b = CHR 0xBB \<and> c = CHR 0xBF)"

fun trimStart :: "string \<Rightarrow> string" where
  "trimStart [] = []"
| "trimStart [a] = (if ws1 a then [] else [a])"
| "trimStart [a, b] = (if ws1 a then trimStart [b] else if ws2 a b then [] else [a, b])"
| "trimStart (a # b # c # s) =
     (if ws1 a then trimStart (b # c # s)
      else if ws2 a b then trimStart (c # s)
      else if ws3 a b c then trimStart s
      else a # b # c # s)"

text \<open>The same on the reversed string, where every encoding is read back to front.\<close>

fun trimStart_rev :: "string \<Rightarrow> string" where
  "trimStart_rev [] = []"
| "trimStart_rev [a] = (if ws1 a then [] else [a])"
| "trimStart_rev [a, b] = (if ws1 a then trimStart_rev [b] else if ws2 b a then [] else [a, b])"
| "trimStart_rev (a # b # c # s) =
     (if ws1 a then trimStart_rev (b # c # s)
      else if ws2 b a then trimStart_rev (c # s)
      else if ws3 c b a then trimStart_rev s
      else a # b # c # s)"

definition trimEnd :: "string \<Rightarrow> string" where
  "trimEnd s = rev (trimStart_rev (rev s))"

definition trim :: "string \<Rightarrow> string" where
  "trim s = trimEnd (trimStart s)"

text \<open>\<open>s.startsWith(p)\<close>.\<close>

definition startsWith :: "string \<Rightarrow> string \<Rightarrow> bool" where
  "startsWith s p \<longleftrightarrow> take (length p) s = p"

text \<open>The decimal rendering of a number in a template string.\<close>

fun show_nat :: "nat \<Rightarrow> string" where
  "show_nat n =
     (if n < 10 then [''0123456789'' ! n]
      else show_nat (n div 10) @ [''0123456789'' ! (n mod 10)])"

declare show_nat.simps [simp del]

section \<open>Promises, the process and its environment\<close>

text \<open>
  \<open>throw new Error(m)\<close> is \<open>Error m\<close>. An \<open>async\<close> function is a function of the program
  state that returns how its promise settles and the state it leaves: resolved with a value,
  rejected with an error, or never settled (a child process that emits neither \<open>close\<close> nor
  \<open>error\<close> hangs the run).
\<close>

datatype error = Error string

datatype 'a promise = Resolved 'a | Rejected error | Pending

text \<open>\<open>RunResult\<close> of \<open>utils/proc.ts\<close>; the inline \<open>run\<close> of \<open>make-tiramiss.ts\<close> returns the same shape.\<close>

record RunResult =
  code :: int
  out :: string
  err :: string

text \<open>
  What a spawned child emits, in order: \<open>data\<close> on its stdout or stderr pipe (the chunk
  after \<open>toString()\<close>), \<open>error\<close>, and \<open>close\<close> with \<open>code: number | null\<close>.
\<close>

datatype event =
    StdoutData string
  | StderrData string
  | ErrorEvent string
  | CloseEvent "int option"

text \<open>One entry of the log of spawned commands (kept for the statements only).\<close>

record call =
  call_cmd :: string
  call_args :: "string list"
  call_cwd :: "string option"
  call_quiet :: bool
  call_result :: "RunResult promise"

text \<open>
  The state of the run: the world outside the program (repository, file system, remotes),
  what the program wrote to its own stdout and stderr, and the log of spawned commands.
\<close>

record 'w state =
  world :: 'w
  stdout :: "string list"
  stderr :: "string list"
  spawned :: "call list"

text \<open>
  The environment the program calls into: \<open>spawn\<close> of \<open>node:child_process\<close> (command,
  arguments, working directory), \<open>existsSync\<close>, \<open>readFileSync\<close> and \<open>rmSync\<close> of \<open>node:fs\<close>,
  and \<open>join\<close> of \<open>node:path\<close>. Every theorem below holds for every such environment.
\<close>

record 'w os =
  spawn :: "string \<Rightarrow> string list \<Rightarrow> string option \<Rightarrow> 'w \<Rightarrow> event list \<times> 'w"
  existsSync :: "string \<Rightarrow> 'w \<Rightarrow> bool"
  readFileSync :: "string \<Rightarrow> 'w \<Rightarrow> error + string"
  rmSync :: "string \<Rightarrow> 'w \<Rightarrow> error + 'w"
  path_join :: "string \<Rightarrow> string \<Rightarrow> string"

type_synonym ('w, 'a) async = "'w state \<Rightarrow> 'a promise \<times> 'w state"

definition resolve :: "'a \<Rightarrow> ('w, 'a) async" where
  "resolve a s = (Resolved a, s)"

definition throw :: "error \<Rightarrow> ('w, 'a) async" where
  "throw e s = (Rejected e, s)"

text \<open>\<open>const a = await m; k(a)\<close>: a rejection of \<open>m\<close> propagates, and so does a hang.\<close>

definition await :: "('w, 'a) async \<Rightarrow> ('a \<Rightarrow> ('w, 'b) async) \<Rightarrow> ('w, 'b) async" where
  "await m k s =
     (case m s of
        (Resolved a, s') \<Rightarrow> k a s'
      | (Rejected e, s') \<Rightarrow> (Rejected e, s')
      | (Pending, s') \<Rightarrow> (Pending, s'))"

text \<open>\<open>m.catch(() => { throw e })\<close>.\<close>

definition catch_throw :: "('w, 'a) async \<Rightarrow> error \<Rightarrow> ('w, 'a) async" where
  "catch_throw m e s =
     (case m s of
        (Rejected _, s') \<Rightarrow> (Rejected e, s')
      | (r, s') \<Rightarrow> (r, s'))"

definition write_stdout :: "string \<Rightarrow> 'w state \<Rightarrow> 'w state" where
  "write_stdout t s = s\<lparr>stdout := stdout s @ [t]\<rparr>"

definition write_stderr :: "string \<Rightarrow> 'w state \<Rightarrow> 'w state" where
  "write_stderr t s = s\<lparr>stderr := stderr s @ [t]\<rparr>"

text \<open>\<open>console.log(m)\<close> and \<open>console.error(m)\<close> write the line and a newline.\<close>

definition console_log :: "string \<Rightarrow> ('w, unit) async" where
  "console_log m s = (Resolved (), write_stdout (m @ [CHR 0x0A]) s)"

definition console_error :: "string \<Rightarrow> ('w, unit) async" where
  "console_error m s = (Resolved (), write_stderr (m @ [CHR 0x0A]) s)"

section \<open>Process executor\<close>

text \<open>
  The listeners of \<open>run\<close>, fed the child's events in order. \<open>obuf\<close> and \<open>ebuf\<close> are the two
  accumulating buffers. The promise settles at the first \<open>error\<close> (reject) or \<open>close\<close>
  (resolve with \<open>code ?? 0\<close> and the buffers as they are then); \<open>close\<close> is the last event
  of a child, and nothing after the first settlement can change the promise.
\<close>

fun listen :: "bool \<Rightarrow> event list \<Rightarrow> string \<Rightarrow> string \<Rightarrow> ('w, RunResult) async" where
  "listen q [] obuf ebuf s = (Pending, s)"
| "listen q (StdoutData d # es) obuf ebuf s =
     listen q es (obuf @ d) ebuf (if \<not> q then write_stdout d s else s)"
| "listen q (StderrData d # es) obuf ebuf s =
     listen q es obuf (ebuf @ d) (if \<not> q then write_stderr d s else s)"
| "listen q (ErrorEvent e # es) obuf ebuf s = (Rejected (Error e), s)"
| "listen q (CloseEvent c # es) obuf ebuf s =
     (Resolved \<lparr>code = (case c of None \<Rightarrow> 0 | Some n \<Rightarrow> n), out = obuf, err = ebuf\<rparr>, s)"

text \<open>Spawn the child in the current world, listen, and log the call.\<close>

definition spawn_and_listen ::
  "'w os \<Rightarrow> string \<Rightarrow> string list \<Rightarrow> string option \<Rightarrow> bool \<Rightarrow> ('w, RunResult) async" where
  "spawn_and_listen os c as d q s =
     (case spawn os c as d (world s) of (evs, w') \<Rightarrow>
        (case listen q evs [] [] (s\<lparr>world := w'\<rparr>) of (r, s') \<Rightarrow>
           (r, s'\<lparr>spawned := spawned s' @
                 [\<lparr>call_cmd = c, call_args = as, call_cwd = d, call_quiet = q,
                   call_result = r\<rparr>]\<rparr>)))"

text \<open>\<open>run\<close> of \<open>utils/proc.ts\<close>: echoes the command line, then spawns in \<open>cwd\<close>.\<close>

definition proc_run ::
  "'w os \<Rightarrow> string \<Rightarrow> string list \<Rightarrow> string option \<Rightarrow> bool \<Rightarrow> ('w, RunResult) async" where
  "proc_run os c as d q =
     await (console_log (''> '' @ c @ '' '' @ join '' '' as)) (\<lambda>_.
     spawn_and_listen os c as d q)"

text \<open>\<open>run\<close> of \<open>make-tiramiss.ts\<close>: no echo, no working directory.\<close>

definition run :: "'w os \<Rightarrow> string \<Rightarrow> string list \<Rightarrow> bool \<Rightarrow> ('w, RunResult) async" where
  "run os c as q = spawn_and_listen os c as None q"

section \<open>VCS command facade\<close>

definition git_failed :: "string list \<Rightarrow> string \<Rightarrow> error" where
  "git_failed as e = Error (''git '' @ join '' '' as @ '' failed:'' @ [CHR 0x0A] @ e)"

text \<open>\<open>git\<close> and \<open>gitOk\<close> of \<open>utils/git.ts\<close>.\<close>

definition utils_git :: "'w os \<Rightarrow> string list \<Rightarrow> bool \<Rightarrow> ('w, string) async" where
  "utils_git os as q =
     await (proc_run os ''git'' as None q) (\<lambda>r.
     if code r \<noteq> 0 then throw (git_failed as (err r))
     else resolve (trim (out r)))"

definition utils_gitOk :: "'w os \<Rightarrow> string list \<Rightarrow> ('w, bool) async" where
  "utils_gitOk os as =
     await (proc_run os ''git'' as None True) (\<lambda>r.
     resolve (code r = 0))"

text \<open>\<open>git\<close> and \<open>gitOk\<close> of \<open>make-tiramiss.ts\<close>.\<close>

definition git :: "'w os \<Rightarrow> string list \<Rightarrow> bool \<Rightarrow> ('w, string) async" where
  "git os as q =
     await (run os ''git'' as q) (\<lambda>r.
     if code r \<noteq> 0 then throw (git_failed as (err r))
     else resolve (trim (out r)))"

definition gitOk :: "'w os \<Rightarrow> string list \<Rightarrow> ('w, bool) async" where
  "gitOk os as =
     await (run os ''git'' as True) (\<lambda>r.
     resolve (code r = 0))"

section \<open>Fixed texts of the pipeline\<close>

text \<open>UTF-8 bytes of the bullet U+2022.\<close>

definition glyph_bullet :: string where
  "glyph_bullet =
     [CHR 0xE2, CHR 0x80, CHR 0xA2]"

text \<open>UTF-8 bytes of the triangle U+25B6.\<close>

definition glyph_play :: string where
  "glyph_play =
     [CHR 0xE2, CHR 0x96, CHR 0xB6]"

text \<open>UTF-8 bytes of the information sign U+2139.\<close>

definition glyph_info :: string where
  "glyph_info =
     [CHR 0xE2, CHR 0x84, CHR 0xB9]"

text \<open>UTF-8 bytes of the check mark U+2714.\<close>

definition glyph_check :: string where
  "glyph_check =
     [CHR 0xE2, CHR 0x9C, CHR 0x94]"

text \<open>UTF-8 bytes of the cross U+2716.\<close>

definition glyph_cross :: string where
  "glyph_cross =
     [CHR 0xE2, CHR 0x9C, CHR 0x96]"

text \<open>UTF-8 bytes of the message of \<open>ensureClean\<close> (the working tree is not clean; commit or stash).\<close>

definition msg_not_clean :: string where
  "msg_not_clean =
     [CHR 0xE4, CHR 0xBD, CHR 0x9C, CHR 0xE6, CHR 0xA5, CHR 0xAD, CHR 0xE3, CHR 0x83, CHR
     0x84, CHR 0xE3, CHR 0x83, CHR 0xAA, CHR 0xE3, CHR 0x83, CHR 0xBC, CHR 0xE3, CHR 0x81,
     CHR 0x8C, CHR 0xE3, CHR 0x82, CHR 0xAF, CHR 0xE3, CHR 0x83, CHR 0xAA, CHR 0xE3, CHR
     0x83, CHR 0xBC, CHR 0xE3, CHR 0x83, CHR 0xB3, CHR 0xE3, CHR 0x81, CHR 0xA7, CHR 0xE3,
     CHR 0x81, CHR 0xAF, CHR 0xE3, CHR 0x81, CHR 0x82, CHR 0xE3, CHR 0x82, CHR 0x8A, CHR
     0xE3, CHR 0x81, CHR 0xBE, CHR 0xE3, CHR 0x81, CHR 0x9B, CHR 0xE3, CHR 0x82, CHR 0x93,
     CHR 0xE3, CHR 0x80, CHR 0x82, CHR 0xE3, CHR 0x82, CHR 0xB3, CHR 0xE3, CHR 0x83, CHR
     0x9F, CHR 0xE3, CHR 0x83, CHR 0x83, CHR 0xE3, CHR 0x83, CHR 0x88] @ '' or stash '' @
     [CHR 0xE3, CHR 0x81, CHR 0x97, CHR 0xE3, CHR 0x81, CHR 0xA6, CHR 0xE3, CHR 0x81, CHR
     0x8F, CHR 0xE3, CHR 0x81, CHR 0xA0, CHR 0xE3, CHR 0x81, CHR 0x95, CHR 0xE3, CHR 0x81,
     CHR 0x84, CHR 0xE3, CHR 0x80, CHR 0x82]"

text \<open>UTF-8 bytes of the prefix of the message of \<open>resolveTopicRef\<close> (branch not found), before the raw topic.\<close>

definition msg_branch_not_found :: string where
  "msg_branch_not_found =
     [CHR 0xE8, CHR 0xA6, CHR 0x8B, CHR 0xE3, CHR 0x81, CHR 0xA4, CHR 0xE3, CHR 0x81, CHR
     0x8B, CHR 0xE3, CHR 0x82, CHR 0x89, CHR 0xE3, CHR 0x81, CHR 0xAA, CHR 0xE3, CHR 0x81,
     CHR 0x84, CHR 0xE3, CHR 0x83, CHR 0x96, CHR 0xE3, CHR 0x83, CHR 0xA9, CHR 0xE3, CHR
     0x83, CHR 0xB3, CHR 0xE3, CHR 0x83, CHR 0x81] @ '': ''"

text \<open>UTF-8 bytes of the prefix of the message of \<open>applyPick\<close> when the merge base is empty (could not get it).\<close>

definition msg_merge_base_failed :: string where
  "msg_merge_base_failed =
     ''merge-base '' @ [CHR 0xE5, CHR 0x8F, CHR 0x96, CHR 0xE5, CHR 0xBE, CHR 0x97, CHR
     0xE5, CHR 0xA4, CHR 0xB1, CHR 0xE6, CHR 0x95, CHR 0x97] @ '': ''"

text \<open>UTF-8 bytes of the message of \<open>applyPick\<close> on a failed cherry-pick (conflict; resolve, continue, run again).\<close>

definition msg_pick_conflict :: string where
  "msg_pick_conflict =
     ''cherry-pick '' @ [CHR 0xE3, CHR 0x82, CHR 0xB3, CHR 0xE3, CHR 0x83, CHR 0xB3, CHR
     0xE3, CHR 0x83, CHR 0x95, CHR 0xE3, CHR 0x83, CHR 0xAA, CHR 0xE3, CHR 0x82, CHR 0xAF,
     CHR 0xE3, CHR 0x83, CHR 0x88, CHR 0xE3, CHR 0x80, CHR 0x82, CHR 0xE8, CHR 0xA7, CHR
     0xA3, CHR 0xE6, CHR 0xB1, CHR 0xBA, CHR 0xE5, CHR 0xBE, CHR 0x8C] @ '' '' @ [CHR 0x27]
     @ ''git add -A && git cherry-pick --continue'' @ [CHR 0x27] @ '' '' @ [CHR 0xE3, CHR
     0x82, CHR 0x92, CHR 0xE5, CHR 0xAE, CHR 0x9F, CHR 0xE8, CHR 0xA1, CHR 0x8C, CHR 0xE3,
     CHR 0x81, CHR 0x97, CHR 0xE3, CHR 0x80, CHR 0x81, CHR 0xE5, CHR 0x86, CHR 0x8D, CHR
     0xE5, CHR 0xAE, CHR 0x9F, CHR 0xE8, CHR 0xA1, CHR 0x8C, CHR 0xE3, CHR 0x81, CHR 0x97,
     CHR 0xE3, CHR 0x81, CHR 0xA6, CHR 0xE3, CHR 0x81, CHR 0x8F, CHR 0xE3, CHR 0x81, CHR
     0xA0, CHR 0xE3, CHR 0x81, CHR 0x95, CHR 0xE3, CHR 0x81, CHR 0x84, CHR 0xE3, CHR 0x80,
     CHR 0x82]"

text \<open>UTF-8 bytes of the message of \<open>applySquash\<close> on a failed squash merge (conflict; resolve, commit, run again).\<close>

definition msg_squash_conflict :: string where
  "msg_squash_conflict =
     ''squash '' @ [CHR 0xE3, CHR 0x82, CHR 0xB3, CHR 0xE3, CHR 0x83, CHR 0xB3, CHR 0xE3,
     CHR 0x83, CHR 0x95, CHR 0xE3, CHR 0x83, CHR 0xAA, CHR 0xE3, CHR 0x82, CHR 0xAF, CHR
     0xE3, CHR 0x83, CHR 0x88, CHR 0xE3, CHR 0x80, CHR 0x82, CHR 0xE8, CHR 0xA7, CHR 0xA3,
     CHR 0xE6, CHR 0xB1, CHR 0xBA, CHR 0xE5, CHR 0xBE, CHR 0x8C] @ '' '' @ [CHR 0x27] @
     ''git commit'' @ [CHR 0x27] @ '' '' @ [CHR 0xE3, CHR 0x81, CHR 0x97, CHR 0xE3, CHR
     0x81, CHR 0xA6, CHR 0xE5, CHR 0x86, CHR 0x8D, CHR 0xE5, CHR 0xAE, CHR 0x9F, CHR 0xE8,
     CHR 0xA1, CHR 0x8C, CHR 0xE3, CHR 0x81, CHR 0x97, CHR 0xE3, CHR 0x81, CHR 0xA6, CHR
     0xE3, CHR 0x81, CHR 0x8F, CHR 0xE3, CHR 0x81, CHR 0xA0, CHR 0xE3, CHR 0x81, CHR 0x95,
     CHR 0xE3, CHR 0x81, CHR 0x84, CHR 0xE3, CHR 0x80, CHR 0x82]"

text \<open>UTF-8 bytes of the log line of \<open>vendorToolRepo\<close> when \<open>TOOL_REPO\<close> is empty, after the glyph.\<close>

definition msg_tool_repo_unset :: string where
  "msg_tool_repo_unset =
     '' TOOL_REPO '' @ [CHR 0xE3, CHR 0x81, CHR 0x8C, CHR 0xE6, CHR 0x9C, CHR 0xAA, CHR
     0xE6, CHR 0x8C, CHR 0x87, CHR 0xE5, CHR 0xAE, CHR 0x9A, CHR 0xE3, CHR 0x81, CHR 0xAA,
     CHR 0xE3, CHR 0x81, CHR 0xAE, CHR 0xE3, CHR 0x81, CHR 0xA7, CHR 0xE3, CHR 0x82, CHR
     0xB9, CHR 0xE3, CHR 0x82, CHR 0xAD, CHR 0xE3, CHR 0x83, CHR 0x83, CHR 0xE3, CHR 0x83,
     CHR 0x97, CHR 0xEF, CHR 0xBC, CHR 0x88] @ ''./tiramiss '' @ [CHR 0xE3, CHR 0x81, CHR
     0xAF, CHR 0xE8, CHR 0xA7, CHR 0xA6, CHR 0xE3, CHR 0x82, CHR 0x89, CHR 0xE3, CHR 0x81,
     CHR 0xAA, CHR 0xE3, CHR 0x81, CHR 0x84, CHR 0xEF, CHR 0xBC, CHR 0x89]"

text \<open>UTF-8 bytes of the log line of the pipeline when no topics file exists, after the glyph.\<close>

definition msg_topics_missing :: string where
  "msg_topics_missing =
     '' topics.txt '' @ [CHR 0xE3, CHR 0x81, CHR 0x8C, CHR 0xE8, CHR 0xA6, CHR 0x8B, CHR
     0xE3, CHR 0x81, CHR 0xA4, CHR 0xE3, CHR 0x81, CHR 0x8B, CHR 0xE3, CHR 0x82, CHR 0x8A,
     CHR 0xE3, CHR 0x81, CHR 0xBE, CHR 0xE3, CHR 0x81, CHR 0x9B, CHR 0xE3, CHR 0x82, CHR
     0x93, CHR 0xE3, CHR 0x80, CHR 0x82] @ ''./tiramiss '' @ [CHR 0xE3, CHR 0x82, CHR 0x92,
     CHR 0xE8, CHR 0xBC, CHR 0x89, CHR 0xE3, CHR 0x81, CHR 0x9B, CHR 0xE3, CHR 0x81, CHR
     0x9F, CHR 0xE3, CHR 0x81, CHR 0xA0, CHR 0xE3, CHR 0x81, CHR 0x91, CHR 0xE3, CHR 0x81,
     CHR 0xA7, CHR 0xE7, CHR 0xB5, CHR 0x82, CHR 0xE4, CHR 0xBA, CHR 0x86, CHR 0xE3, CHR
     0x81, CHR 0x97, CHR 0xE3, CHR 0x81, CHR 0xBE, CHR 0xE3, CHR 0x81, CHR 0x99, CHR 0xE3,
     CHR 0x80, CHR 0x82]"

section \<open>The pipeline of \<open>make-tiramiss.ts\<close>\<close>

text \<open>
  The configuration read from the environment once at start-up. \<open>MODE\<close> is the raw string:
  the dispatch compares it with \<open>merge\<close> and \<open>pick\<close> and takes squash for anything else.
\<close>

record config =
  BASE_REF :: string
  WORKING_BRANCH :: string
  INTEG_BRANCH :: string
  TOOL_REPO :: string
  TOOL_REF :: string
  TOOL_DIR :: string
  PUSH :: bool
  MODE :: string

definition TOPICS_CANDIDATES :: "'w os \<Rightarrow> config \<Rightarrow> string list" where
  "TOPICS_CANDIDATES os cfg = [path_join os (TOOL_DIR cfg) ''topics.txt'', ''topics.txt'']"

subsection \<open>Synchronous file-system steps\<close>

definition fs_exists :: "'w os \<Rightarrow> string \<Rightarrow> ('w, bool) async" where
  "fs_exists os p s = (Resolved (existsSync os p (world s)), s)"

definition fs_rm :: "'w os \<Rightarrow> string \<Rightarrow> ('w, unit) async" where
  "fs_rm os p s =
     (case rmSync os p (world s) of
        Inl e \<Rightarrow> (Rejected e, s)
      | Inr w' \<Rightarrow> (Resolved (), s\<lparr>world := w'\<rparr>))"

definition fs_read :: "'w os \<Rightarrow> string \<Rightarrow> ('w, string) async" where
  "fs_read os p s =
     (case readFileSync os p (world s) of
        Inl e \<Rightarrow> (Rejected e, s)
      | Inr t \<Rightarrow> (Resolved t, s))"

subsection \<open>Facade verbs\<close>

definition ensureClean :: "'w os \<Rightarrow> ('w, unit) async" where
  "ensureClean os =
     await (git os [''status'', ''--porcelain''] True) (\<lambda>s.
     if trim s \<noteq> [] then throw (Error msg_not_clean) else resolve ())"

definition rev_ref :: "'w os \<Rightarrow> string \<Rightarrow> ('w, string) async" where
  "rev_ref os ref = git os [''rev-parse'', ''--verify'', ref @ ''^{commit}''] True"

definition localBranchExists :: "'w os \<Rightarrow> string \<Rightarrow> ('w, bool) async" where
  "localBranchExists os n = gitOk os [''show-ref'', ''--verify'', ''refs/heads/'' @ n]"

definition remoteBranchExists :: "'w os \<Rightarrow> string \<Rightarrow> ('w, bool) async" where
  "remoteBranchExists os n = gitOk os [''show-ref'', ''--verify'', ''refs/remotes/'' @ n]"

definition mergeBase :: "'w os \<Rightarrow> string \<Rightarrow> string \<Rightarrow> ('w, string) async" where
  "mergeBase os a b = git os [''merge-base'', a, b] True"

definition listCommits :: "'w os \<Rightarrow> string \<Rightarrow> string \<Rightarrow> ('w, string list) async" where
  "listCommits os base head =
     await (git os [''rev-list'', ''--reverse'', ''--ancestry-path'', base @ ''..'' @ head] True)
       (\<lambda>outp.
     resolve (if outp \<noteq> [] then filter (\<lambda>l. l \<noteq> []) (split_on (CHR 0x0A) outp) else []))"

subsection \<open>Topic list and topic resolver\<close>

text \<open>The loop of \<open>readTopics\<close> over the candidate paths; the first existing file wins.\<close>

fun readTopics_from :: "'w os \<Rightarrow> string list \<Rightarrow> ('w, string option \<times> string list) async" where
  "readTopics_from os [] = resolve (None, [])"
| "readTopics_from os (p # ps) =
     await (fs_exists os p) (\<lambda>ex.
     if ex then
       await (fs_read os p) (\<lambda>t.
       resolve (Some p,
         filter (\<lambda>l. l \<noteq> [] \<and> \<not> startsWith l ''#'') (map trim (split_lines t))))
     else readTopics_from os ps)"

definition readTopics :: "'w os \<Rightarrow> config \<Rightarrow> ('w, string option \<times> string list) async" where
  "readTopics os cfg = readTopics_from os (TOPICS_CANDIDATES os cfg)"

text \<open>The loop of \<open>resolveTopicRef\<close> over the remote candidates, and the \<open>throw\<close> after it.\<close>

fun resolve_candidates :: "'w os \<Rightarrow> string \<Rightarrow> string list \<Rightarrow> ('w, string) async" where
  "resolve_candidates os topic [] = throw (Error (msg_branch_not_found @ topic))"
| "resolve_candidates os topic (cand # cands) =
     await (gitOk os [''rev-parse'', ''--verify'', cand @ ''^{commit}'']) (\<lambda>ok.
     if ok then resolve cand else resolve_candidates os topic cands)"

definition resolveTopicRef :: "'w os \<Rightarrow> string \<Rightarrow> ('w, string) async" where
  "resolveTopicRef os topic =
     await (gitOk os [''rev-parse'', ''--verify'', topic @ ''^{commit}'']) (\<lambda>ok.
     if ok then resolve topic
     else resolve_candidates os topic [''origin/'' @ topic, ''upstream/'' @ topic])"

subsection \<open>Integration engine\<close>

definition applyMerge :: "'w os \<Rightarrow> string \<Rightarrow> ('w, unit) async" where
  "applyMerge os topic =
     await (gitOk os [''merge-base'', ''--is-ancestor'', topic, ''HEAD'']) (\<lambda>anc.
     if anc then console_log (''  '' @ glyph_bullet @ '' skip (already merged): '' @ topic)
     else
       await (git os [''merge'', ''--no-ff'', topic] False) (\<lambda>_.
       resolve ()))"

text \<open>The \<open>for\<close> loop of \<open>applyPick\<close>.\<close>

fun pick_each :: "'w os \<Rightarrow> string list \<Rightarrow> ('w, unit) async" where
  "pick_each os [] = resolve ()"
| "pick_each os (c # cs) =
     await (catch_throw (git os [''cherry-pick'', ''-x'', c] False) (Error msg_pick_conflict))
       (\<lambda>_.
     pick_each os cs)"

definition applyPick :: "'w os \<Rightarrow> string \<Rightarrow> string \<Rightarrow> ('w, unit) async" where
  "applyPick os topic baseRef =
     await (gitOk os [''merge-base'', ''--is-ancestor'', topic, ''HEAD'']) (\<lambda>anc.
     if anc then console_log (''  '' @ glyph_bullet @ '' skip (already picked): '' @ topic)
     else
       await (mergeBase os topic baseRef) (\<lambda>base.
       if base = [] then throw (Error (msg_merge_base_failed @ topic @ '' vs '' @ baseRef))
       else
         await (listCommits os base topic) (\<lambda>commits.
         if commits = [] then console_log ''   (no commits to pick)''
         else pick_each os commits)))"

text \<open>\<open>topic.split("/").pop() ?? topic\<close>.\<close>

definition short_name :: "string \<Rightarrow> string" where
  "short_name topic =
     (case split_on (CHR ''/'') topic of [] \<Rightarrow> topic | x # xs \<Rightarrow> last (x # xs))"

definition applySquash :: "'w os \<Rightarrow> string \<Rightarrow> ('w, unit) async" where
  "applySquash os topic =
     await (mergeBase os ''HEAD'' topic) (\<lambda>common.
     await (run os ''git'' [''diff'', ''--quiet'', common @ ''..'' @ topic, ''--''] True) (\<lambda>diff.
     if code diff = 0 then console_log (''  '' @ glyph_bullet @ '' skip (no diff): '' @ topic)
     else
       await (run os ''git'' [''merge'', ''--squash'', ''--no-commit'', topic] False) (\<lambda>m.
       if code m \<noteq> 0 then throw (Error msg_squash_conflict)
       else
         await (git os [''log'', ''-1'', ''--pretty=%s'', topic] True) (\<lambda>headSubj.
         await (git os
                 [''commit'',
                  ''-m'', ''squash('' @ short_name topic @ ''): '' @ headSubj,
                  ''-m'', ''Squashed from '' @ [CHR 0x27] @ topic @ [CHR 0x27]] False) (\<lambda>_.
         resolve ())))))"

subsection \<open>Vendoring of the tool repository\<close>

definition vendorToolRepo :: "'w os \<Rightarrow> config \<Rightarrow> ('w, bool) async" where
  "vendorToolRepo os cfg =
     (if TOOL_REPO cfg = [] then
        await (console_log (glyph_info @ msg_tool_repo_unset)) (\<lambda>_.
        resolve False)
      else
        await (fs_exists os (TOOL_DIR cfg)) (\<lambda>ex.
        await (if ex then
                 await (console_log (''  '' @ glyph_bullet @ '' remove existing ./'' @ TOOL_DIR cfg))
                   (\<lambda>_.
                 await (fs_rm os (TOOL_DIR cfg)) (\<lambda>_.
                 await (git os [''add'', ''-A'', TOOL_DIR cfg] False) (\<lambda>_.
                 resolve ())))
               else resolve ()) (\<lambda>_.
        await (console_log (''  '' @ glyph_bullet @ '' clone '' @ TOOL_REPO cfg @ ''@'' @
                 TOOL_REF cfg @ '' -> ./'' @ TOOL_DIR cfg)) (\<lambda>_.
        await (run os ''git'' [''clone'', ''--depth=1'', TOOL_REPO cfg, TOOL_DIR cfg] True) (\<lambda>r1.
        if code r1 \<noteq> 0 then throw (Error (''clone failed: '' @ err r1))
        else
          await (run os ''git''
                  [''-C'', TOOL_DIR cfg, ''fetch'', ''--depth=1'', ''origin'', TOOL_REF cfg] True)
            (\<lambda>r2.
          await (if code r2 = 0 then
                   await (git os [''-C'', TOOL_DIR cfg, ''checkout'', ''FETCH_HEAD''] True) (\<lambda>_.
                   resolve ())
                 else resolve ()) (\<lambda>_.
          await (console_log (''  '' @ glyph_bullet @ '' remove nested .git (vendoring)'')) (\<lambda>_.
          await (fs_rm os (path_join os (TOOL_DIR cfg) ''.git'')) (\<lambda>_.
          await (git os [''add'', ''-A'', TOOL_DIR cfg] False) (\<lambda>_.
          await (gitOk os [''diff'', ''--cached'', ''--quiet'']) (\<lambda>unchanged.
          if \<not> unchanged then
            await (git os
                    [''commit'', ''-m'',
                     ''ops: vendor '' @ TOOL_DIR cfg @ '' from '' @ TOOL_REPO cfg @ ''@'' @
                       TOOL_REF cfg] False) (\<lambda>_.
            resolve True)
          else
            await (console_log
                    (''  '' @ glyph_bullet @ '' no changes to commit for vendored tool repo''))
              (\<lambda>_.
            resolve False))))))))))))"

subsection \<open>Pipeline coordinator\<close>

text \<open>The dispatch on the mode, and the \<open>for\<close> loop over the topics.\<close>

definition apply_topic :: "'w os \<Rightarrow> config \<Rightarrow> string \<Rightarrow> ('w, unit) async" where
  "apply_topic os cfg topic =
     (if MODE cfg = ''merge'' then applyMerge os topic
      else if MODE cfg = ''pick'' then applyPick os topic (BASE_REF cfg)
      else applySquash os topic)"

fun apply_topics :: "'w os \<Rightarrow> config \<Rightarrow> string list \<Rightarrow> ('w, unit) async" where
  "apply_topics os cfg [] = resolve ()"
| "apply_topics os cfg (raw # rest) =
     await (resolveTopicRef os raw) (\<lambda>topic.
     await (console_log (''  '' @ glyph_bullet @ '' '' @ topic)) (\<lambda>_.
     await (apply_topic os cfg topic) (\<lambda>_.
     apply_topics os cfg rest)))"

text \<open>Steps 1 to 6 of the asynchronous main function, in the source's order.\<close>

definition reset_working :: "'w os \<Rightarrow> config \<Rightarrow> ('w, unit) async" where
  "reset_working os cfg =
     await (rev_ref os (BASE_REF cfg)) (\<lambda>base.
     await (console_log (''BASE: '' @ BASE_REF cfg @ '' @ '' @ base)) (\<lambda>_.
     await (localBranchExists os (WORKING_BRANCH cfg)) (\<lambda>ex.
     if ex then
       await (git os [''switch'', WORKING_BRANCH cfg] False) (\<lambda>_.
       await (git os [''reset'', ''--hard'', base] False) (\<lambda>_.
       resolve ()))
     else
       await (git os [''switch'', ''-C'', WORKING_BRANCH cfg, base] False) (\<lambda>_.
       resolve ()))))"

definition push_working :: "'w os \<Rightarrow> config \<Rightarrow> bool \<Rightarrow> ('w, unit) async" where
  "push_working os cfg changed =
     await (if PUSH cfg then
              (if changed then resolve True
               else
                 await (remoteBranchExists os (''origin/'' @ WORKING_BRANCH cfg)) (\<lambda>ex.
                 resolve (\<not> ex)))
            else resolve False) (\<lambda>first.
     if first then
       await (console_log (glyph_play @ '' push develop-working'')) (\<lambda>_.
       await (git os [''push'', ''-u'', ''origin'', WORKING_BRANCH cfg] False) (\<lambda>_.
       resolve ()))
     else if PUSH cfg \<and> changed then
       await (git os [''push'', ''origin'', WORKING_BRANCH cfg] False) (\<lambda>_.
       resolve ())
     else resolve ())"

definition reset_integ :: "'w os \<Rightarrow> config \<Rightarrow> ('w, unit) async" where
  "reset_integ os cfg =
     await (rev_ref os ''HEAD'') (\<lambda>workingHead.
     await (localBranchExists os (INTEG_BRANCH cfg)) (\<lambda>ex.
     if ex then
       await (git os [''switch'', INTEG_BRANCH cfg] False) (\<lambda>_.
       await (git os [''reset'', ''--hard'', workingHead] False) (\<lambda>_.
       resolve ()))
     else
       await (git os [''switch'', ''-C'', INTEG_BRANCH cfg, workingHead] False) (\<lambda>_.
       resolve ())))"

definition topics_step :: "'w os \<Rightarrow> config \<Rightarrow> ('w, unit) async" where
  "topics_step os cfg =
     await (readTopics os cfg) (\<lambda>(topicsPath, topics).
     case topicsPath of
       None \<Rightarrow> console_log (glyph_info @ msg_topics_missing)
     | Some p \<Rightarrow>
         await (console_log (glyph_play @ '' apply topics ('' @ MODE cfg @ '') from '' @ p @
                  '': '' @ show_nat (length topics) @ '' entries'')) (\<lambda>_.
         apply_topics os cfg topics))"

definition push_integ :: "'w os \<Rightarrow> config \<Rightarrow> ('w, unit) async" where
  "push_integ os cfg =
     (if PUSH cfg then
        await (remoteBranchExists os (''origin/'' @ INTEG_BRANCH cfg)) (\<lambda>ex.
        if \<not> ex then
          await (git os [''push'', ''-u'', ''origin'', INTEG_BRANCH cfg] False) (\<lambda>_.
          resolve ())
        else
          await (git os [''push'', ''origin'', INTEG_BRANCH cfg] False) (\<lambda>_.
          resolve ()))
      else resolve ())"

definition pipeline :: "'w os \<Rightarrow> config \<Rightarrow> ('w, unit) async" where
  "pipeline os cfg =
     await (ensureClean os) (\<lambda>_.
     await (console_log (glyph_play @ '' fetch --all --prune'')) (\<lambda>_.
     await (git os [''fetch'', ''--all'', ''--prune''] False) (\<lambda>_.
     await (reset_working os cfg) (\<lambda>_.
     await (console_log (glyph_play @ '' vendor tool repo into ./'' @ TOOL_DIR cfg)) (\<lambda>_.
     await (vendorToolRepo os cfg) (\<lambda>changed.
     await (push_working os cfg changed) (\<lambda>_.
     await (reset_integ os cfg) (\<lambda>_.
     await (topics_step os cfg) (\<lambda>_.
     await (push_integ os cfg) (\<lambda>_.
     console_log (glyph_check @ '' pipeline done'')))))))))))"

text \<open>
  The whole program: the pipeline, and the final \<open>catch\<close> that prints the message and exits
  with 1. The result is the exit code of the process, or \<open>None\<close> when a child never ends.
\<close>

definition main :: "'w os \<Rightarrow> config \<Rightarrow> 'w state \<Rightarrow> int option \<times> 'w state" where
  "main os cfg s =
     (case pipeline os cfg s of
        (Resolved _, s') \<Rightarrow> (Some 0, s')
      | (Rejected (Error m), s') \<Rightarrow> (Some 1, snd (console_error (glyph_cross @ '' '' @ m) s'))
      | (Pending, s') \<Rightarrow> (None, s'))"

section \<open>Vocabulary of the statements\<close>

text \<open>The data events of a child, the chunks they carry and the text they add up to.\<close>

fun is_data :: "event \<Rightarrow> bool" where
  "is_data (StdoutData d) = True"
| "is_data (StderrData d) = True"
| "is_data (ErrorEvent e) = False"
| "is_data (CloseEvent c) = False"

fun stdout_chunks :: "event list \<Rightarrow> string list" where
  "stdout_chunks [] = []"
| "stdout_chunks (StdoutData d # es) = d # stdout_chunks es"
| "stdout_chunks (e # es) = stdout_chunks es"

fun stderr_chunks :: "event list \<Rightarrow> string list" where
  "stderr_chunks [] = []"
| "stderr_chunks (StderrData d # es) = d # stderr_chunks es"
| "stderr_chunks (e # es) = stderr_chunks es"

text \<open>A child that emits \<open>close\<close> with \<open>null\<close> is replaced by one that emits \<open>close\<close> with 0.\<close>

fun null_as_zero :: "event \<Rightarrow> event" where
  "null_as_zero (CloseEvent None) = CloseEvent (Some 0)"
| "null_as_zero e = e"

definition exits_zero_on_null :: "'w os \<Rightarrow> 'w os" where
  "exits_zero_on_null os =
     os\<lparr>spawn := (\<lambda>c as d w. case spawn os c as d w of (evs, w') \<Rightarrow> (map null_as_zero evs, w'))\<rparr>"

text \<open>The log entry of a \<open>git\<close> command spawned by \<open>make-tiramiss.ts\<close>.\<close>

definition git_call :: "string list \<Rightarrow> bool \<Rightarrow> RunResult promise \<Rightarrow> call" where
  "git_call as q r =
     \<lparr>call_cmd = ''git'', call_args = as, call_cwd = None, call_quiet = q, call_result = r\<rparr>"

text \<open>The commands spawned between two states.\<close>

definition new_calls :: "'w state \<Rightarrow> 'w state \<Rightarrow> call list" where
  "new_calls s s' = drop (length (spawned s)) (spawned s')"

text \<open>A logged command ran to its \<open>close\<close> with exit code 0, or with another exit code.\<close>

definition exit_ok :: "call \<Rightarrow> bool" where
  "exit_ok c = (case call_result c of Resolved r \<Rightarrow> code r = 0 | _ \<Rightarrow> False)"

definition exit_failed :: "call \<Rightarrow> bool" where
  "exit_failed c = (case call_result c of Resolved r \<Rightarrow> code r \<noteq> 0 | _ \<Rightarrow> False)"

definition stdout_of :: "call \<Rightarrow> string" where
  "stdout_of c = (case call_result c of Resolved r \<Rightarrow> out r | _ \<Rightarrow> [])"

definition stderr_of :: "call \<Rightarrow> string" where
  "stderr_of c = (case call_result c of Resolved r \<Rightarrow> err r | _ \<Rightarrow> [])"

text \<open>The command lines the engine issues.\<close>

definition is_ancestor_probe :: "string \<Rightarrow> string list" where
  "is_ancestor_probe topic = [''merge-base'', ''--is-ancestor'', topic, ''HEAD'']"

definition cherry_pick :: "string \<Rightarrow> string list" where
  "cherry_pick c = [''cherry-pick'', ''-x'', c]"

definition verify_commit :: "string \<Rightarrow> string list" where
  "verify_commit ref = [''rev-parse'', ''--verify'', ref @ ''^{commit}'']"

text \<open>
  The commands by which the run asks git for a new commit: \<open>commit\<close>, \<open>cherry-pick\<close> and
  \<open>merge --no-ff\<close> (\<open>merge --squash --no-commit\<close> only stages). The count of new commits of
  a piece of the log is the number of such commands that exited with 0.
\<close>

definition commit_creating :: "string list \<Rightarrow> bool" where
  "commit_creating as \<longleftrightarrow>
     take 1 as = [''commit''] \<or> take 1 as = [''cherry-pick''] \<or>
     take 2 as = [''merge'', ''--no-ff'']"

definition new_commits :: "call list \<Rightarrow> nat" where
  "new_commits cs = length (filter (\<lambda>c. commit_creating (call_args c) \<and> exit_ok c) cs)"

text \<open>The two checks by which the engine detects a topic as already integrated.\<close>

definition integration_check :: "string list \<Rightarrow> bool" where
  "integration_check as \<longleftrightarrow>
     take 2 as = [''merge-base'', ''--is-ancestor''] \<or> take 2 as = [''diff'', ''--quiet'']"

text \<open>A transport command of the pipeline itself: \<open>git fetch ...\<close> or \<open>git push ...\<close>.\<close>

definition transport :: "string list \<Rightarrow> bool" where
  "transport as \<longleftrightarrow> (case as of [] \<Rightarrow> False | a # rest \<Rightarrow> a = ''fetch'' \<or> a = ''push'')"



subsection \<open>Properties of the log that compose along the run\<close>






subsection \<open>White space at the ends of a string\<close>

text \<open>The encoding of one white-space character, a string made of them only, and a string
  that begins or ends with one.\<close>

definition is_ws :: "string \<Rightarrow> bool" where
  "is_ws w \<longleftrightarrow>
     (case w of
        [a] \<Rightarrow> ws1 a
      | [a, b] \<Rightarrow> ws2 a b
      | [a, b, c] \<Rightarrow> ws3 a b c
      | _ \<Rightarrow> False)"

inductive blank :: "string \<Rightarrow> bool" where
  blank_Nil: "blank []"
| blank_ws: "is_ws w \<Longrightarrow> blank s \<Longrightarrow> blank (w @ s)"



subsection \<open>The phases of a run, read off the log\<close>








section \<open>A scripted environment\<close>

text \<open>
  A test double for the concrete instances below: the world is the list of children still to
  come (each spawn takes the next one, whatever the command) and a flat file system.
  Its \<open>path_join\<close> puts a \<open>/\<close> between the two parts; node's \<open>path.join\<close> also
  normalises the result (\<open>.\<close>, \<open>..\<close>, doubled or trailing separators), which changes nothing
  for the plain directory name \<open>tiramiss\<close> of the configurations used below. The general
  theorems take the environment as a parameter and assume nothing about \<open>path_join\<close>.
\<close>

record sim =
  script :: "event list list"
  files :: "(string \<times> string) list"

definition sim_os :: "sim os" where
  "sim_os =
     \<lparr>spawn = (\<lambda>c as d w. case script w of [] \<Rightarrow> ([], w) | evs # rest \<Rightarrow> (evs, w\<lparr>script := rest\<rparr>)),
      existsSync = (\<lambda>p w. map_of (files w) p \<noteq> None),
      readFileSync = (\<lambda>p w. case map_of (files w) p of
                               None \<Rightarrow> Inl (Error (''ENOENT: no such file or directory, open '' @ p))
                             | Some t \<Rightarrow> Inr t),
      rmSync = (\<lambda>p w. Inr (w\<lparr>files := filter (\<lambda>e. fst e \<noteq> p) (files w)\<rparr>)),
      path_join = (\<lambda>a b. a @ ''/'' @ b)\<rparr>"

definition sim_state :: "event list list \<Rightarrow> (string \<times> string) list \<Rightarrow> sim state" where
  "sim_state scr fs = \<lparr>world = \<lparr>script = scr, files = fs\<rparr>, stdout = [], stderr = [], spawned = []\<rparr>"

text \<open>Children that print a text and exit with a code.\<close>

definition exits :: "int \<Rightarrow> event list" where
  "exits n = [CloseEvent (Some n)]"

definition prints :: "string \<Rightarrow> event list" where
  "prints t = [StdoutData (t @ [CHR 0x0A]), CloseEvent (Some 0)]"

definition fails :: "int \<Rightarrow> string \<Rightarrow> event list" where
  "fails n t = [StderrData (t @ [CHR 0x0A]), CloseEvent (Some n)]"

text \<open>The configuration when no environment variable is set, and two variations of it.\<close>

definition default_config :: config where
  "default_config =
     \<lparr>BASE_REF = ''origin/develop-upstream'', WORKING_BRANCH = ''develop-working'',
      INTEG_BRANCH = ''tiramiss'', TOOL_REPO = [], TOOL_REF = ''HEAD'', TOOL_DIR = ''tiramiss'',
      PUSH = True, MODE = ''squash''\<rparr>"

definition merge_config :: config where
  "merge_config = default_config\<lparr>PUSH := False, MODE := ''merge''\<rparr>"


section \<open>A small repository\<close>

text \<open>
  An in-memory stand-in for git, for the concrete runs of the whole pipeline: a commit graph
  (each commit with its parents), the refs, the checked-out branch and the files of the work
  tree. It answers the commands the pipeline issues in merge mode without vendoring; the
  work tree is always clean and merges never conflict.
\<close>

record repo =
  commits :: "(string \<times> string list) list"
  refs :: "(string \<times> string) list"
  checked_out :: string
  worktree :: "(string \<times> string) list"














section \<open>Basic facts about the executor\<close>

lemma listen_result:
  assumes "\<forall>e\<in>set ds. is_data e"
  shows "listen q (ds @ CloseEvent x # rest) ob eb s =
     (Resolved \<lparr>code = (case x of None \<Rightarrow> 0 | Some n \<Rightarrow> n),
                out = ob @ concat (stdout_chunks ds),
                err = eb @ concat (stderr_chunks ds)\<rparr>,
      s\<lparr>stdout := stdout s @ (if q then [] else stdout_chunks ds),
        stderr := stderr s @ (if q then [] else stderr_chunks ds)\<rparr>)"
  using assms
proof (induction ds arbitrary: ob eb s)
  case Nil
  then show ?case by simp
next
  case (Cons e ds)
  then show ?case
    by (cases e) (simp_all add: write_stdout_def write_stderr_def)
qed

lemma listen_keeps:
  "listen q evs ob eb s = (r, s') \<Longrightarrow> spawned s' = spawned s \<and> world s' = world s"
proof (induction q evs ob eb s rule: listen.induct)
  case (2 q d es obuf ebuf s)
  then show ?case by (cases q) (auto simp: write_stdout_def)
next
  case (3 q d es obuf ebuf s)
  then show ?case by (cases q) (auto simp: write_stderr_def)
qed auto

lemma listen_null_as_zero:
  "listen q (map null_as_zero evs) ob eb s = listen q evs ob eb s"
proof (induction q evs ob eb s rule: listen.induct)
  case (5 q c es obuf ebuf s)
  then show ?case by (cases c) simp_all
qed simp_all

section \<open>What \<open>trim\<close> removes\<close>

lemma is_ws_simps [simp]:
  "\<not> is_ws []"
  "is_ws [a] \<longleftrightarrow> ws1 a"
  "is_ws [a, b] \<longleftrightarrow> ws2 a b"
  "is_ws [a, b, c] \<longleftrightarrow> ws3 a b c"
  "\<not> is_ws (a # b # c # d # s)"
  by (simp_all add: is_ws_def)


lemma blank_append: "blank s \<Longrightarrow> blank t \<Longrightarrow> blank (s @ t)"
  by (induction rule: blank.induct) (auto intro: blank.intros)








section \<open>Process executor and facade: the claims\<close>

lemma spawn_and_listen_closed:
  assumes "spawn os c as d (world s) = (ds @ CloseEvent x # rest, w')"
      and "\<forall>e\<in>set ds. is_data e"
  shows "spawn_and_listen os c as d q s =
     (Resolved \<lparr>code = (case x of None \<Rightarrow> 0 | Some n \<Rightarrow> n),
                out = concat (stdout_chunks ds), err = concat (stderr_chunks ds)\<rparr>,
      s\<lparr>world := w',
        stdout := stdout s @ (if q then [] else stdout_chunks ds),
        stderr := stderr s @ (if q then [] else stderr_chunks ds),
        spawned := spawned s @
          [\<lparr>call_cmd = c, call_args = as, call_cwd = d, call_quiet = q,
            call_result = Resolved \<lparr>code = (case x of None \<Rightarrow> 0 | Some n \<Rightarrow> n),
                out = concat (stdout_chunks ds), err = concat (stderr_chunks ds)\<rparr>\<rparr>]\<rparr>)"
  using assms by (simp add: spawn_and_listen_def listen_result)

lemma proc_run_closed:
  assumes "spawn os c as d (world s) = (ds @ CloseEvent x # rest, w')"
      and "\<forall>e\<in>set ds. is_data e"
  shows "proc_run os c as d q s =
     (Resolved \<lparr>code = (case x of None \<Rightarrow> 0 | Some n \<Rightarrow> n),
                out = concat (stdout_chunks ds), err = concat (stderr_chunks ds)\<rparr>,
      s\<lparr>world := w',
        stdout := stdout s @ [''> '' @ c @ '' '' @ join '' '' as @ [CHR 0x0A]] @
                  (if q then [] else stdout_chunks ds),
        stderr := stderr s @ (if q then [] else stderr_chunks ds),
        spawned := spawned s @
          [\<lparr>call_cmd = c, call_args = as, call_cwd = d, call_quiet = q,
            call_result = Resolved \<lparr>code = (case x of None \<Rightarrow> 0 | Some n \<Rightarrow> n),
                out = concat (stdout_chunks ds), err = concat (stderr_chunks ds)\<rparr>\<rparr>]\<rparr>)"
proof -
  let ?s0 = "write_stdout (''> '' @ c @ '' '' @ join '' '' as @ [CHR 0x0A]) s"
  have w: "spawn os c as d (world ?s0) = (ds @ CloseEvent x # rest, w')"
    using assms(1) by (simp add: write_stdout_def)
  have "proc_run os c as d q s = spawn_and_listen os c as d q ?s0"
    by (simp add: proc_run_def await_def console_log_def)
  also have "\<dots> =
     (Resolved \<lparr>code = (case x of None \<Rightarrow> 0 | Some n \<Rightarrow> n),
                out = concat (stdout_chunks ds), err = concat (stderr_chunks ds)\<rparr>,
      ?s0\<lparr>world := w',
        stdout := stdout ?s0 @ (if q then [] else stdout_chunks ds),
        stderr := stderr ?s0 @ (if q then [] else stderr_chunks ds),
        spawned := spawned ?s0 @
          [\<lparr>call_cmd = c, call_args = as, call_cwd = d, call_quiet = q,
            call_result = Resolved \<lparr>code = (case x of None \<Rightarrow> 0 | Some n \<Rightarrow> n),
                out = concat (stdout_chunks ds), err = concat (stderr_chunks ds)\<rparr>\<rparr>]\<rparr>)"
    by (rule spawn_and_listen_closed [OF w assms(2)])
  finally show ?thesis
    by (simp add: write_stdout_def)
qed

text \<open>
  C9. For every command, argument list and working directory, once the child has emitted its
  data and then \<open>close\<close> with any exit code, \<open>run\<close> (of \<open>utils/proc.ts\<close>, and the inline one of
  \<open>make-tiramiss.ts\<close>) resolves with the structured result: that exit code, the concatenation
  of all stdout chunks and the concatenation of all stderr chunks. It never rejects on the
  exit code. Without \<open>quiet\<close> the chunks are also written through to the parent's stdout and
  stderr; with \<open>quiet\<close> nothing of the child's output is written (the executor of
  \<open>utils/proc.ts\<close> writes only its own echo of the command line), and the returned strings are
  the same.
\<close>

theorem run_returns_structured_result:
  assumes "spawn os c as d (world s) = (ds @ CloseEvent (Some n) # rest, w')"
      and "\<forall>e\<in>set ds. is_data e"
  shows "fst (proc_run os c as d q s) =
           Resolved \<lparr>code = n, out = concat (stdout_chunks ds), err = concat (stderr_chunks ds)\<rparr>
       \<and> stdout (snd (proc_run os c as d q s)) =
           stdout s @ [''> '' @ c @ '' '' @ join '' '' as @ [CHR 0x0A]] @
           (if q then [] else stdout_chunks ds)
       \<and> stderr (snd (proc_run os c as d q s)) =
           stderr s @ (if q then [] else stderr_chunks ds)
       \<and> (d = None \<longrightarrow>
           fst (run os c as q s) =
             Resolved \<lparr>code = n, out = concat (stdout_chunks ds), err = concat (stderr_chunks ds)\<rparr>
         \<and> stdout (snd (run os c as q s)) = stdout s @ (if q then [] else stdout_chunks ds)
         \<and> stderr (snd (run os c as q s)) = stderr s @ (if q then [] else stderr_chunks ds))"
proof -
  have p: "proc_run os c as d q s =
     (Resolved \<lparr>code = n, out = concat (stdout_chunks ds), err = concat (stderr_chunks ds)\<rparr>,
      s\<lparr>world := w',
        stdout := stdout s @ [''> '' @ c @ '' '' @ join '' '' as @ [CHR 0x0A]] @
                  (if q then [] else stdout_chunks ds),
        stderr := stderr s @ (if q then [] else stderr_chunks ds),
        spawned := spawned s @
          [\<lparr>call_cmd = c, call_args = as, call_cwd = d, call_quiet = q,
            call_result = Resolved \<lparr>code = n,
                out = concat (stdout_chunks ds), err = concat (stderr_chunks ds)\<rparr>\<rparr>]\<rparr>)"
    using proc_run_closed [OF assms, of q] by simp
  have r: "run os c as q s =
     (Resolved \<lparr>code = n, out = concat (stdout_chunks ds), err = concat (stderr_chunks ds)\<rparr>,
      s\<lparr>world := w',
        stdout := stdout s @ (if q then [] else stdout_chunks ds),
        stderr := stderr s @ (if q then [] else stderr_chunks ds),
        spawned := spawned s @
          [\<lparr>call_cmd = c, call_args = as, call_cwd = d, call_quiet = q,
            call_result = Resolved \<lparr>code = n,
                out = concat (stdout_chunks ds), err = concat (stderr_chunks ds)\<rparr>\<rparr>]\<rparr>)"
    if "d = None"
    using spawn_and_listen_closed [OF assms, of q] that by (simp add: run_def)
  have r': "d = None \<longrightarrow>
           fst (run os c as q s) =
             Resolved \<lparr>code = n, out = concat (stdout_chunks ds), err = concat (stderr_chunks ds)\<rparr>
         \<and> stdout (snd (run os c as q s)) = stdout s @ (if q then [] else stdout_chunks ds)
         \<and> stderr (snd (run os c as q s)) = stderr s @ (if q then [] else stderr_chunks ds)"
  proof
    assume "d = None"
    from r [OF this] show "fst (run os c as q s) =
             Resolved \<lparr>code = n, out = concat (stdout_chunks ds), err = concat (stderr_chunks ds)\<rparr>
         \<and> stdout (snd (run os c as q s)) = stdout s @ (if q then [] else stdout_chunks ds)
         \<and> stderr (snd (run os c as q s)) = stderr s @ (if q then [] else stderr_chunks ds)"
      by simp
  qed
  have p': "fst (proc_run os c as d q s) =
           Resolved \<lparr>code = n, out = concat (stdout_chunks ds), err = concat (stderr_chunks ds)\<rparr>
       \<and> stdout (snd (proc_run os c as d q s)) =
           stdout s @ [''> '' @ c @ '' '' @ join '' '' as @ [CHR 0x0A]] @
           (if q then [] else stdout_chunks ds)
       \<and> stderr (snd (proc_run os c as d q s)) =
           stderr s @ (if q then [] else stderr_chunks ds)"
    unfolding p by simp
  from p' r' show ?thesis by blast
qed

theorem run_returns_structured_result_witness:
  "fst (proc_run sim_os ''git'' [''status''] None True
          (sim_state [[StdoutData ''M a'', StderrData ''warn'', StdoutData ''.ts'',
                       CloseEvent (Some 3)]] [])) =
     Resolved \<lparr>code = 3, out = ''M a.ts'', err = ''warn''\<rparr>
   \<and> stdout (snd (proc_run sim_os ''git'' [''status''] None True
          (sim_state [[StdoutData ''M a'', StderrData ''warn'', StdoutData ''.ts'',
                       CloseEvent (Some 3)]] []))) = [''> git status'' @ [CHR 0x0A]]
   \<and> stdout (snd (run sim_os ''git'' [''status''] False
          (sim_state [[StdoutData ''M a'', StderrData ''warn'', StdoutData ''.ts'',
                       CloseEvent (Some 3)]] []))) = [''M a'', ''.ts'']"
proof -
  let ?s = "sim_state [[StdoutData ''M a'', StderrData ''warn'', StdoutData ''.ts'',
                        CloseEvent (Some 3)]] []"
  have sp: "spawn sim_os ''git'' [''status''] None (world ?s) =
      ([StdoutData ''M a'', StderrData ''warn'', StdoutData ''.ts''] @ CloseEvent (Some 3) # [],
       \<lparr>script = [], files = []\<rparr>)"
    by (simp add: sim_os_def sim_state_def)
  have da: "\<forall>e\<in>set [StdoutData ''M a'', StderrData ''warn'', StdoutData ''.ts'']. is_data e"
    by simp
  have t: "fst (proc_run sim_os ''git'' [''status''] None True ?s) =
      Resolved \<lparr>code = 3, out = ''M a.ts'', err = ''warn''\<rparr>
    \<and> stdout (snd (proc_run sim_os ''git'' [''status''] None True ?s)) =
        [''> git status'' @ [CHR 0x0A]]"
    using run_returns_structured_result [OF sp da, of True] by (simp add: sim_state_def)
  have f: "stdout (snd (run sim_os ''git'' [''status''] False ?s)) = [''M a'', ''.ts'']"
    using run_returns_structured_result [OF sp da, of False] by (simp add: sim_state_def)
  from t f show ?thesis by simp
qed








section \<open>A \<open>close\<close> without an exit code\<close>

named_theorems on_null \<open>the program cannot tell a null exit code from 0\<close>

lemma spawn_and_listen_on_null [on_null]:
  "spawn_and_listen (exits_zero_on_null os) c as d q = spawn_and_listen os c as d q"
  by (rule ext)
    (simp add: spawn_and_listen_def exits_zero_on_null_def listen_null_as_zero split: prod.splits)

lemma fs_on_null [on_null]:
  "fs_exists (exits_zero_on_null os) = fs_exists os"
  "fs_rm (exits_zero_on_null os) = fs_rm os"
  "fs_read (exits_zero_on_null os) = fs_read os"
  "path_join (exits_zero_on_null os) = path_join os"
  by (auto simp: fs_exists_def fs_rm_def fs_read_def exits_zero_on_null_def fun_eq_iff)

lemma run_on_null [on_null]:
  "run (exits_zero_on_null os) = run os"
  "proc_run (exits_zero_on_null os) = proc_run os"
  by (simp_all add: run_def proc_run_def on_null fun_eq_iff)

lemma git_on_null [on_null]:
  "git (exits_zero_on_null os) = git os"
  "gitOk (exits_zero_on_null os) = gitOk os"
  "utils_git (exits_zero_on_null os) = utils_git os"
  "utils_gitOk (exits_zero_on_null os) = utils_gitOk os"
  by (simp_all add: git_def gitOk_def utils_git_def utils_gitOk_def on_null fun_eq_iff)

lemma verbs_on_null [on_null]:
  "ensureClean (exits_zero_on_null os) = ensureClean os"
  "rev_ref (exits_zero_on_null os) = rev_ref os"
  "localBranchExists (exits_zero_on_null os) = localBranchExists os"
  "remoteBranchExists (exits_zero_on_null os) = remoteBranchExists os"
  "mergeBase (exits_zero_on_null os) = mergeBase os"
  "listCommits (exits_zero_on_null os) = listCommits os"
  by (simp_all add: ensureClean_def rev_ref_def localBranchExists_def remoteBranchExists_def
      mergeBase_def listCommits_def on_null fun_eq_iff)

lemma readTopics_from_on_null [on_null]:
  "readTopics_from (exits_zero_on_null os) ps = readTopics_from os ps"
  by (induction ps) (simp_all add: on_null cong: if_cong)

lemma resolve_candidates_on_null [on_null]:
  "resolve_candidates (exits_zero_on_null os) topic cs = resolve_candidates os topic cs"
  by (induction cs) (simp_all add: on_null cong: if_cong)

lemma pick_each_on_null [on_null]:
  "pick_each (exits_zero_on_null os) cs = pick_each os cs"
  by (induction cs) (simp_all add: on_null cong: if_cong)

lemma engine_on_null [on_null]:
  "readTopics (exits_zero_on_null os) = readTopics os"
  "resolveTopicRef (exits_zero_on_null os) = resolveTopicRef os"
  "applyMerge (exits_zero_on_null os) = applyMerge os"
  "applyPick (exits_zero_on_null os) = applyPick os"
  "applySquash (exits_zero_on_null os) = applySquash os"
  by (simp_all add: readTopics_def TOPICS_CANDIDATES_def resolveTopicRef_def applyMerge_def
      applyPick_def applySquash_def on_null fun_eq_iff cong: if_cong)

lemma vendorToolRepo_on_null [on_null]:
  "vendorToolRepo (exits_zero_on_null os) = vendorToolRepo os"
  by (simp add: vendorToolRepo_def on_null fun_eq_iff cong: if_cong)

lemma apply_topics_on_null [on_null]:
  "apply_topics (exits_zero_on_null os) cfg ts = apply_topics os cfg ts"
  by (induction ts) (simp_all add: apply_topic_def on_null cong: if_cong)

lemma pipeline_on_null [on_null]:
  "pipeline (exits_zero_on_null os) = pipeline os"
  by (simp add: pipeline_def reset_working_def push_working_def reset_integ_def topics_step_def
      push_integ_def on_null fun_eq_iff cong: if_cong option.case_cong)

text \<open>
  C10. When the child's \<open>close\<close> event carries \<open>null\<close> instead of an exit code, \<open>run\<close> (both
  executors) resolves with exit code 0, so \<open>gitOk\<close> answers \<open>true\<close> and \<open>git\<close> returns the
  trimmed stdout as for a success. No caller can tell the difference: in an environment where
  every such child closes with 0 instead, the vendoring step (with its staged-diff check), the
  whole pipeline and the program behave identically.
\<close>

theorem null_exit_code_is_success:
  assumes "spawn os c as None (world s) = (ds @ CloseEvent None # rest, w')"
      and "\<forall>e\<in>set ds. is_data e"
  shows "fst (proc_run os c as None q s) =
           Resolved \<lparr>code = 0, out = concat (stdout_chunks ds), err = concat (stderr_chunks ds)\<rparr>
       \<and> fst (run os c as q s) =
           Resolved \<lparr>code = 0, out = concat (stdout_chunks ds), err = concat (stderr_chunks ds)\<rparr>
       \<and> (c = ''git'' \<longrightarrow>
            fst (gitOk os as s) = Resolved True
          \<and> fst (utils_gitOk os as s) = Resolved True
          \<and> fst (git os as q s) = Resolved (trim (concat (stdout_chunks ds)))
          \<and> fst (utils_git os as q s) = Resolved (trim (concat (stdout_chunks ds))))
       \<and> vendorToolRepo (exits_zero_on_null os) cfg = vendorToolRepo os cfg
       \<and> pipeline (exits_zero_on_null os) cfg = pipeline os cfg
       \<and> main (exits_zero_on_null os) cfg = main os cfg"
proof -
  have g: "fst (gitOk os as s) = Resolved True
          \<and> fst (utils_gitOk os as s) = Resolved True
          \<and> fst (git os as q s) = Resolved (trim (concat (stdout_chunks ds)))
          \<and> fst (utils_git os as q s) = Resolved (trim (concat (stdout_chunks ds)))"
    if "c = ''git''"
    using assms that
    by (simp add: utils_git_def utils_gitOk_def git_def gitOk_def await_def run_def
        proc_run_closed spawn_and_listen_closed throw_def resolve_def)
  have m: "main (exits_zero_on_null os) cfg = main os cfg"
    by (simp add: main_def pipeline_on_null fun_eq_iff)
  show ?thesis
    using g m
    by (simp add: proc_run_closed [OF assms] run_def spawn_and_listen_closed [OF assms]
        vendorToolRepo_on_null pipeline_on_null)
qed

theorem null_exit_code_is_success_witness:
  "fst (run sim_os ''git'' [''diff'', ''--cached'', ''--quiet''] True
          (sim_state [[CloseEvent None]] [])) = Resolved \<lparr>code = 0, out = [], err = []\<rparr>
   \<and> fst (gitOk sim_os [''diff'', ''--cached'', ''--quiet'']
          (sim_state [[CloseEvent None]] [])) = Resolved True"
proof -
  have sp: "spawn sim_os ''git'' [''diff'', ''--cached'', ''--quiet''] None
      (world (sim_state [[CloseEvent None]] [])) =
      ([] @ CloseEvent None # [], \<lparr>script = [], files = []\<rparr>)"
    by (simp add: sim_os_def sim_state_def)
  have da: "\<forall>e\<in>set []. is_data e"
    by simp
  show ?thesis
    using null_exit_code_is_success [OF sp da, of True] by simp
qed

section \<open>What one step adds to the log\<close>

lemma awaitE:
  assumes "await m k s = (r, s')"
  obtains (val) a s1 where "m s = (Resolved a, s1)" and "k a s1 = (r, s')"
    | (rej) e where "m s = (Rejected e, s')" and "r = Rejected e"
    | (hang) "m s = (Pending, s')" and "r = Pending"
proof (cases "m s")
  case (Pair x s1)
  with assms show ?thesis
    by (cases x) (auto simp: await_def intro: val rej hang)
qed

lemma run_step:
  assumes "run os c as q s = (r, s')"
  shows "spawned s' = spawned s @
    [\<lparr>call_cmd = c, call_args = as, call_cwd = None, call_quiet = q, call_result = r\<rparr>]"
proof -
  obtain evs w' where sp: "spawn os c as None (world s) = (evs, w')"
    by (cases "spawn os c as None (world s)")
  obtain r0 s0 where li: "listen q evs [] [] (s\<lparr>world := w'\<rparr>) = (r0, s0)"
    by (cases "listen q evs [] [] (s\<lparr>world := w'\<rparr>)")
  from listen_keeps [OF li] have "spawned s0 = spawned s" by simp
  with assms sp li show ?thesis
    by (auto simp: run_def spawn_and_listen_def)
qed

lemma run_stepE:
  assumes "run os ''git'' as q s = (r, s')"
  obtains "spawned s' = spawned s @ [git_call as q r]"
  using run_step [OF assms] by (simp add: git_call_def)

lemma git_stepE:
  assumes "git os as q s = (r, s')"
  obtains rr where "spawned s' = spawned s @ [git_call as q rr]"
    and "(\<exists>x. rr = Resolved x \<and> code x = 0 \<and> r = Resolved (trim (out x)))
       \<or> (\<exists>x. rr = Resolved x \<and> code x \<noteq> 0 \<and> r = Rejected (git_failed as (err x)))
       \<or> (\<exists>e. rr = Rejected e \<and> r = Rejected e)
       \<or> (rr = Pending \<and> r = Pending)"
proof -
  from assms have "await (run os ''git'' as q)
      (\<lambda>x. if code x \<noteq> 0 then throw (git_failed as (err x)) else resolve (trim (out x))) s
      = (r, s')"
    by (simp add: git_def)
  then show ?thesis
  proof (cases rule: awaitE)
    case (val x s1)
    from val(1) have "spawned s1 = spawned s @ [git_call as q (Resolved x)]"
      by (rule run_stepE)
    with val(2) show ?thesis
      by (intro that [of "Resolved x"]) (auto simp: throw_def resolve_def split: if_splits)
  next
    case (rej e)
    from rej(1) have "spawned s' = spawned s @ [git_call as q (Rejected e)]"
      by (rule run_stepE)
    with rej(2) show ?thesis
      by (intro that [of "Rejected e"]) auto
  next
    case hang
    from hang(1) have "spawned s' = spawned s @ [git_call as q Pending]"
      by (rule run_stepE)
    with hang(2) show ?thesis
      by (intro that [of Pending]) auto
  qed
qed

lemma gitOk_stepE:
  assumes "gitOk os as s = (r, s')"
  obtains rr where "spawned s' = spawned s @ [git_call as True rr]"
    and "(\<exists>x. rr = Resolved x \<and> r = Resolved (code x = 0))
       \<or> (\<exists>e. rr = Rejected e \<and> r = Rejected e)
       \<or> (rr = Pending \<and> r = Pending)"
proof -
  from assms have "await (run os ''git'' as True) (\<lambda>x. resolve (code x = 0)) s = (r, s')"
    by (simp add: gitOk_def)
  then show ?thesis
  proof (cases rule: awaitE)
    case (val x s1)
    from val(1) have "spawned s1 = spawned s @ [git_call as True (Resolved x)]"
      by (rule run_stepE)
    with val(2) show ?thesis
      by (intro that [of "Resolved x"]) (auto simp: resolve_def)
  next
    case (rej e)
    from rej(1) have "spawned s' = spawned s @ [git_call as True (Rejected e)]"
      by (rule run_stepE)
    with rej(2) show ?thesis
      by (intro that [of "Rejected e"]) auto
  next
    case hang
    from hang(1) have "spawned s' = spawned s @ [git_call as True Pending]"
      by (rule run_stepE)
    with hang(2) show ?thesis
      by (intro that [of Pending]) auto
  qed
qed

lemma console_log_step:
  "console_log m s = (r, s') \<Longrightarrow> r = Resolved () \<and> spawned s' = spawned s"
  by (auto simp: console_log_def write_stdout_def)

lemma new_calls_append [simp]:
  "spawned s' = spawned s @ cs \<Longrightarrow> new_calls s s' = cs"
  by (simp add: new_calls_def)

lemma git_call_simps [simp]:
  "call_cmd (git_call as q r) = ''git''"
  "call_args (git_call as q r) = as"
  "call_cwd (git_call as q r) = None"
  "call_quiet (git_call as q r) = q"
  "call_result (git_call as q r) = r"
  "exit_ok (git_call as q r) \<longleftrightarrow> (\<exists>x. r = Resolved x \<and> code x = 0)"
  "exit_failed (git_call as q r) \<longleftrightarrow> (\<exists>x. r = Resolved x \<and> code x \<noteq> 0)"
  "stdout_of (git_call as q (Resolved x)) = out x"
  "stderr_of (git_call as q (Resolved x)) = err x"
  by (auto simp: git_call_def exit_ok_def exit_failed_def stdout_of_def stderr_of_def
      split: promise.splits)

lemma exit_ok_not_failed: "exit_ok c \<Longrightarrow> \<not> exit_failed c"
  by (auto simp: exit_ok_def exit_failed_def split: promise.splits)


lemma new_commits_append [simp]:
  "new_commits (xs @ ys) = new_commits xs + new_commits ys"
  by (simp add: new_commits_def)

lemma commit_creating_simps [simp]:
  "commit_creating (cherry_pick c)"
  "\<not> commit_creating (is_ancestor_probe topic)"
  "\<not> commit_creating (verify_commit ref)"
  "\<not> commit_creating (''merge-base'' # as)"
  "\<not> commit_creating (''rev-list'' # as)"
  "\<not> commit_creating (''diff'' # as)"
  "\<not> commit_creating (''log'' # as)"
  "\<not> commit_creating (''merge'' # ''--squash'' # ''--no-commit'' # as)"
  "commit_creating (''commit'' # as)"
  "commit_creating (''merge'' # ''--no-ff'' # as)"
  by (auto simp: commit_creating_def cherry_pick_def is_ancestor_probe_def verify_commit_def)



lemmas sim_eval =
  gitOk_def git_def run_def spawn_and_listen_def await_def resolve_def throw_def catch_throw_def
  console_log_def write_stdout_def write_stderr_def sim_os_def sim_state_def
  exits_def prints_def fails_def mergeBase_def listCommits_def git_call_def
  trim_def trimEnd_def ws1_def ws2_def ws3_def git_failed_def


section \<open>Topic resolver\<close>

text \<open>
  C5. The resolver probes the raw string verbatim; if that probe answers no, it probes
  \<open>origin/<raw>\<close>, and only if that answers no too, \<open>upstream/<raw>\<close>. It returns the first
  candidate whose probe answers yes, in the state right after that probe, so no
  later-priority candidate is probed, whether it would resolve or not. If all three answer
  no it rejects with the branch-not-found message followed by the raw string.
\<close>

theorem resolveTopicRef_first_match:
  "(gitOk os (verify_commit topic) s = (Resolved True, s1) \<longrightarrow>
      resolveTopicRef os topic s = (Resolved topic, s1))
 \<and> (gitOk os (verify_commit topic) s = (Resolved False, s1) \<and>
    gitOk os (verify_commit (''origin/'' @ topic)) s1 = (Resolved True, s2) \<longrightarrow>
      resolveTopicRef os topic s = (Resolved (''origin/'' @ topic), s2) \<and>
      map call_args (new_calls s s2) =
        [verify_commit topic, verify_commit (''origin/'' @ topic)])
 \<and> (gitOk os (verify_commit topic) s = (Resolved False, s1) \<and>
    gitOk os (verify_commit (''origin/'' @ topic)) s1 = (Resolved False, s2) \<and>
    gitOk os (verify_commit (''upstream/'' @ topic)) s2 = (Resolved True, s3) \<longrightarrow>
      resolveTopicRef os topic s = (Resolved (''upstream/'' @ topic), s3))
 \<and> (gitOk os (verify_commit topic) s = (Resolved False, s1) \<and>
    gitOk os (verify_commit (''origin/'' @ topic)) s1 = (Resolved False, s2) \<and>
    gitOk os (verify_commit (''upstream/'' @ topic)) s2 = (Resolved False, s3) \<longrightarrow>
      resolveTopicRef os topic s = (Rejected (Error (msg_branch_not_found @ topic)), s3))"
proof -
  have trace: "map call_args (new_calls s s2) =
      [verify_commit topic, verify_commit (''origin/'' @ topic)]"
    if a: "gitOk os (verify_commit topic) s = (Resolved False, s1)"
      and b: "gitOk os (verify_commit (''origin/'' @ topic)) s1 = (Resolved True, s2)"
  proof -
    from a obtain r1 where "spawned s1 = spawned s @ [git_call (verify_commit topic) True r1]"
      by (rule gitOk_stepE)
    moreover from b obtain r2 where
      "spawned s2 = spawned s1 @ [git_call (verify_commit (''origin/'' @ topic)) True r2]"
      by (rule gitOk_stepE)
    ultimately have "spawned s2 = spawned s @
        [git_call (verify_commit topic) True r1,
         git_call (verify_commit (''origin/'' @ topic)) True r2]"
      by simp
    then show ?thesis by simp
  qed
  show ?thesis
    using trace
    by (simp add: resolveTopicRef_def verify_commit_def await_def resolve_def throw_def)
qed

theorem resolveTopicRef_first_match_witness:
  "resolveTopicRef sim_os ''feature-x'' (sim_state [exits 1, exits 0, exits 0] []) =
     (Resolved ''origin/feature-x'',
      \<lparr>world = \<lparr>script = [exits 0], files = []\<rparr>, stdout = [], stderr = [],
       spawned =
         [git_call (verify_commit ''feature-x'') True (Resolved \<lparr>code = 1, out = [], err = []\<rparr>),
          git_call (verify_commit ''origin/feature-x'') True
            (Resolved \<lparr>code = 0, out = [], err = []\<rparr>)]\<rparr>)"
proof -
  let ?s1 = "\<lparr>world = \<lparr>script = [exits 0, exits 0], files = []\<rparr>, stdout = [], stderr = [],
       spawned =
         [git_call (verify_commit ''feature-x'') True
            (Resolved \<lparr>code = 1, out = [], err = []\<rparr>)]\<rparr>"
  let ?s2 = "\<lparr>world = \<lparr>script = [exits 0], files = []\<rparr>, stdout = [], stderr = [],
       spawned =
         [git_call (verify_commit ''feature-x'') True (Resolved \<lparr>code = 1, out = [], err = []\<rparr>),
          git_call (verify_commit ''origin/feature-x'') True
            (Resolved \<lparr>code = 0, out = [], err = []\<rparr>)]\<rparr>"
  have a: "gitOk sim_os (verify_commit ''feature-x'') (sim_state [exits 1, exits 0, exits 0] [])
      = (Resolved False, ?s1)"
    by (simp add: gitOk_def run_def spawn_and_listen_def await_def resolve_def sim_os_def
        sim_state_def exits_def git_call_def)
  have b: "gitOk sim_os (verify_commit (''origin/'' @ ''feature-x'')) ?s1 = (Resolved True, ?s2)"
    by (simp add: gitOk_def run_def spawn_and_listen_def await_def resolve_def sim_os_def
        exits_def git_call_def)
  from resolveTopicRef_first_match
    [of sim_os "''feature-x''" "sim_state [exits 1, exits 0, exits 0] []" ?s1 ?s2] a b
  show ?thesis by simp
qed

section \<open>Integration engine: pick mode\<close>

lemma catch_git_stepE:
  assumes "catch_throw (git os as q) e s = (r, s')"
  obtains rr where "spawned s' = spawned s @ [git_call as q rr]"
    and "(\<exists>x. rr = Resolved x \<and> code x = 0 \<and> r = Resolved (trim (out x)))
       \<or> (\<exists>x. rr = Resolved x \<and> code x \<noteq> 0 \<and> r = Rejected e)
       \<or> (\<exists>e'. rr = Rejected e' \<and> r = Rejected e)
       \<or> (rr = Pending \<and> r = Pending)"
proof -
  obtain r0 s0 where g: "git os as q s = (r0, s0)"
    by (cases "git os as q s")
  from g obtain rr where tr: "spawned s0 = spawned s @ [git_call as q rr]"
    and "(\<exists>x. rr = Resolved x \<and> code x = 0 \<and> r0 = Resolved (trim (out x)))
       \<or> (\<exists>x. rr = Resolved x \<and> code x \<noteq> 0 \<and> r0 = Rejected (git_failed as (err x)))
       \<or> (\<exists>e. rr = Rejected e \<and> r0 = Rejected e)
       \<or> (rr = Pending \<and> r0 = Pending)"
    by (rule git_stepE)
  with assms g show ?thesis
    by (intro that [of rr]) (auto simp: catch_throw_def)
qed

text \<open>
  The loop issues \<open>cherry-pick -x\<close> for a prefix of the commits, in order; every command but
  the last one issued exited with 0; the loop resolves exactly when it went through the whole
  list, and a command that exited with another code ends it with the conflict error.
\<close>

lemma pick_each_shape:
  "pick_each os cs s = (r, s') \<Longrightarrow>
     \<exists>picks. spawned s' = spawned s @ picks
       \<and> map call_args picks = map cherry_pick (take (length picks) cs)
       \<and> list_all exit_ok (butlast picks)
       \<and> (r = Resolved () \<longrightarrow> length picks = length cs \<and> list_all exit_ok picks)
       \<and> (r \<noteq> Resolved () \<longrightarrow> picks \<noteq> [] \<and> \<not> exit_ok (last picks))
       \<and> (picks \<noteq> [] \<and> exit_failed (last picks) \<longrightarrow> r = Rejected (Error msg_pick_conflict))"
proof (induction cs arbitrary: s)
  case Nil
  then show ?case by (auto simp: resolve_def)
next
  case (Cons c cs)
  from Cons.prems have "await (catch_throw (git os [''cherry-pick'', ''-x'', c] False)
      (Error msg_pick_conflict)) (\<lambda>_. pick_each os cs) s = (r, s')"
    by simp
  then show ?case
  proof (cases rule: awaitE)
    case (val a s1)
    from val(1) obtain rr where tr: "spawned s1 = spawned s @ [git_call (cherry_pick c) False rr]"
      and ok: "exit_ok (git_call (cherry_pick c) False rr)"
      by (rule catch_git_stepE) (auto simp: cherry_pick_def)
    from Cons.IH [OF val(2)] obtain picks where p: "spawned s' = spawned s1 @ picks"
      "map call_args picks = map cherry_pick (take (length picks) cs)"
      "list_all exit_ok (butlast picks)"
      "r = Resolved () \<longrightarrow> length picks = length cs \<and> list_all exit_ok picks"
      "r \<noteq> Resolved () \<longrightarrow> picks \<noteq> [] \<and> \<not> exit_ok (last picks)"
      "picks \<noteq> [] \<and> exit_failed (last picks) \<longrightarrow> r = Rejected (Error msg_pick_conflict)"
      by blast
    let ?all = "git_call (cherry_pick c) False rr # picks"
    have "spawned s' = spawned s @ ?all" using tr p(1) by simp
    moreover have "map call_args ?all = map cherry_pick (take (length ?all) (c # cs))"
      using p(2) by simp
    moreover have "list_all exit_ok (butlast ?all)"
      using p(3) ok by (cases picks) simp_all
    moreover have "r = Resolved () \<longrightarrow> length ?all = length (c # cs) \<and> list_all exit_ok ?all"
      using p(4) ok by simp
    moreover have "r \<noteq> Resolved () \<longrightarrow> ?all \<noteq> [] \<and> \<not> exit_ok (last ?all)"
      using p(5) by simp
    moreover have "?all \<noteq> [] \<and> exit_failed (last ?all) \<longrightarrow> r = Rejected (Error msg_pick_conflict)"
      using p(5,6) ok by (cases picks) (auto simp: exit_ok_def exit_failed_def split: promise.splits)
    ultimately show ?thesis by blast
  next
    case (rej e)
    from rej(1) obtain rr where tr: "spawned s' = spawned s @ [git_call (cherry_pick c) False rr]"
      and "\<not> exit_ok (git_call (cherry_pick c) False rr)" and "e = Error msg_pick_conflict"
      by (rule catch_git_stepE) (auto simp: cherry_pick_def)
    with rej(2) show ?thesis
      by (intro exI [of _ "[git_call (cherry_pick c) False rr]"]) simp
  next
    case hang
    from hang(1) obtain rr where tr: "spawned s' = spawned s @ [git_call (cherry_pick c) False rr]"
      and "rr = Pending"
      by (rule catch_git_stepE) (auto simp: cherry_pick_def)
    with hang(2) show ?thesis
      by (intro exI [of _ "[git_call (cherry_pick c) False rr]"]) simp
  qed
qed

lemma listCommits_stepE:
  assumes "listCommits os base head s = (r, s')"
  obtains rr where
    "spawned s' = spawned s @
       [git_call [''rev-list'', ''--reverse'', ''--ancestry-path'', base @ ''..'' @ head] True rr]"
    and "(\<exists>x. rr = Resolved x \<and> code x = 0 \<and>
            r = Resolved (filter (\<lambda>l. l \<noteq> []) (split_on (CHR 0x0A) (trim (out x)))))
       \<or> (\<forall>x. rr = Resolved x \<longrightarrow> code x \<noteq> 0) \<and> (\<forall>v. r \<noteq> Resolved v)"
proof -
  let ?as = "[''rev-list'', ''--reverse'', ''--ancestry-path'', base @ ''..'' @ head]"
  from assms have "await (git os ?as True)
      (\<lambda>outp. resolve (if outp \<noteq> [] then filter (\<lambda>l. l \<noteq> []) (split_on (CHR 0x0A) outp) else []))
      s = (r, s')"
    by (simp add: listCommits_def)
  then show ?thesis
  proof (cases rule: awaitE)
    case (val outp s1)
    from val(1) obtain rr where "spawned s1 = spawned s @ [git_call ?as True rr]"
      and "\<exists>x. rr = Resolved x \<and> code x = 0 \<and> outp = trim (out x)"
      by (rule git_stepE) auto
    with val(2) show ?thesis
      by (intro that [of rr]) (auto simp: resolve_def)
  next
    case (rej e)
    from rej(1) obtain rr where "spawned s' = spawned s @ [git_call ?as True rr]"
      and "\<forall>x. rr = Resolved x \<longrightarrow> code x \<noteq> 0"
      by (rule git_stepE) auto
    with rej(2) show ?thesis
      by (intro that [of rr]) auto
  next
    case hang
    from hang(1) obtain rr where "spawned s' = spawned s @ [git_call ?as True rr]"
      and "\<forall>x. rr = Resolved x \<longrightarrow> code x \<noteq> 0"
      by (rule git_stepE) auto
    with hang(2) show ?thesis
      by (intro that [of rr]) auto
  qed
qed

text \<open>Every way an application in pick mode can go, read off the log.\<close>

lemma applyPick_shape:
  assumes "applyPick os topic baseRef s = (r, s')"
  obtains
    (skip) probe where "new_calls s s' = [probe]"
      and "call_args probe = is_ancestor_probe topic" and "exit_ok probe" and "r = Resolved ()"
  | (probe_died) probe where "new_calls s s' = [probe]"
      and "call_args probe = is_ancestor_probe topic"
      and "\<not> exit_ok probe" and "\<not> exit_failed probe" and "r \<noteq> Resolved ()"
  | (no_base) probe mb where "new_calls s s' = [probe, mb]"
      and "call_args probe = is_ancestor_probe topic" and "exit_failed probe"
      and "call_args mb = [''merge-base'', topic, baseRef]"
      and "\<not> exit_ok mb \<or> trim (stdout_of mb) = []" and "r \<noteq> Resolved ()"
  | (no_list) probe mb rl where "new_calls s s' = [probe, mb, rl]"
      and "call_args probe = is_ancestor_probe topic" and "exit_failed probe"
      and "call_args mb = [''merge-base'', topic, baseRef]"
      and "exit_ok mb" and "trim (stdout_of mb) \<noteq> []"
      and "call_args rl =
        [''rev-list'', ''--reverse'', ''--ancestry-path'', trim (stdout_of mb) @ ''..'' @ topic]"
      and "\<not> exit_ok rl" and "r \<noteq> Resolved ()"
  | (picked) probe mb rl picks where "new_calls s s' = probe # mb # rl # picks"
      and "call_args probe = is_ancestor_probe topic" and "exit_failed probe"
      and "call_args mb = [''merge-base'', topic, baseRef]"
      and "exit_ok mb" and "trim (stdout_of mb) \<noteq> []"
      and "call_args rl =
        [''rev-list'', ''--reverse'', ''--ancestry-path'', trim (stdout_of mb) @ ''..'' @ topic]"
      and "exit_ok rl"
      and "map call_args picks = map cherry_pick
             (take (length picks)
                (filter (\<lambda>l. l \<noteq> []) (split_on (CHR 0x0A) (trim (stdout_of rl)))))"
      and "list_all exit_ok (butlast picks)"
      and "r = Resolved () \<longrightarrow>
             length picks =
               length (filter (\<lambda>l. l \<noteq> []) (split_on (CHR 0x0A) (trim (stdout_of rl))))
             \<and> list_all exit_ok picks"
      and "r \<noteq> Resolved () \<longrightarrow> picks \<noteq> [] \<and> \<not> exit_ok (last picks)"
      and "picks \<noteq> [] \<and> exit_failed (last picks) \<longrightarrow> r = Rejected (Error msg_pick_conflict)"
proof -
  let ?P = "is_ancestor_probe topic"
  let ?MB = "[''merge-base'', topic, baseRef]"
  from assms have "await (gitOk os ?P)
      (\<lambda>anc. if anc then console_log (''  '' @ glyph_bullet @ '' skip (already picked): '' @ topic)
         else await (mergeBase os topic baseRef) (\<lambda>base.
           if base = [] then throw (Error (msg_merge_base_failed @ topic @ '' vs '' @ baseRef))
           else await (listCommits os base topic) (\<lambda>commits.
             if commits = [] then console_log ''   (no commits to pick)''
             else pick_each os commits))) s = (r, s')"
    by (simp add: applyPick_def is_ancestor_probe_def)
  then show ?thesis
  proof (cases rule: awaitE)
    case (rej e)
    from rej(1) obtain rr where "spawned s' = spawned s @ [git_call ?P True rr]"
      and "rr = Rejected e"
      by (rule gitOk_stepE) auto
    with rej(2) show ?thesis
      by (intro probe_died [of "git_call ?P True rr"]) simp_all
  next
    case hang
    from hang(1) obtain rr where "spawned s' = spawned s @ [git_call ?P True rr]"
      and "rr = Pending"
      by (rule gitOk_stepE) auto
    with hang(2) show ?thesis
      by (intro probe_died [of "git_call ?P True rr"]) simp_all
  next
    case (val anc s1)
    from val(1) obtain rr x where tr1: "spawned s1 = spawned s @ [git_call ?P True rr]"
      and rr: "rr = Resolved x" and anc: "anc \<longleftrightarrow> code x = 0"
      by (rule gitOk_stepE) auto
    let ?probe = "git_call ?P True rr"
    show ?thesis
    proof (cases anc)
      case True
      with val(2) have "console_log (''  '' @ glyph_bullet @ '' skip (already picked): '' @ topic) s1
          = (r, s')"
        by simp
      from console_log_step [OF this] have "r = Resolved ()" and "spawned s' = spawned s1"
        by simp_all
      with tr1 rr anc True show ?thesis
        by (intro skip [of ?probe]) simp_all
    next
      case False
      then have pf: "exit_failed ?probe"
        using rr anc by simp
      from False val(2) have "await (mergeBase os topic baseRef) (\<lambda>base.
           if base = [] then throw (Error (msg_merge_base_failed @ topic @ '' vs '' @ baseRef))
           else await (listCommits os base topic) (\<lambda>commits.
             if commits = [] then console_log ''   (no commits to pick)''
             else pick_each os commits)) s1 = (r, s')"
        by simp
      then show ?thesis
      proof (cases rule: awaitE)
        case (rej e)
        from rej(1) obtain r2 where "spawned s' = spawned s1 @ [git_call ?MB True r2]"
          and "\<not> exit_ok (git_call ?MB True r2)"
          unfolding mergeBase_def by (rule git_stepE) auto
        with rej(2) tr1 pf show ?thesis
          by (intro no_base [of ?probe "git_call ?MB True r2"]) simp_all
      next
        case hang
        from hang(1) obtain r2 where "spawned s' = spawned s1 @ [git_call ?MB True r2]"
          and "\<not> exit_ok (git_call ?MB True r2)"
          unfolding mergeBase_def by (rule git_stepE) auto
        with hang(2) tr1 pf show ?thesis
          by (intro no_base [of ?probe "git_call ?MB True r2"]) simp_all
      next
        case (val base s2)
        from val(1) obtain r2 x2 where tr2: "spawned s2 = spawned s1 @ [git_call ?MB True r2]"
          and r2: "r2 = Resolved x2" "code x2 = 0" "base = trim (out x2)"
          unfolding mergeBase_def by (rule git_stepE) auto
        let ?mb = "git_call ?MB True r2"
        have mb: "exit_ok ?mb" "trim (stdout_of ?mb) = base"
          using r2 by simp_all
        show ?thesis
        proof (cases "base = []")
          case True
          with val(2) have "r = Rejected (Error (msg_merge_base_failed @ topic @ '' vs '' @ baseRef))"
            and "s' = s2"
            by (simp_all add: throw_def)
          with tr1 tr2 pf mb True show ?thesis
            by (intro no_base [of ?probe ?mb]) simp_all
        next
          case False
          let ?RL = "[''rev-list'', ''--reverse'', ''--ancestry-path'', base @ ''..'' @ topic]"
          from False val(2) have "await (listCommits os base topic) (\<lambda>commits.
             if commits = [] then console_log ''   (no commits to pick)''
             else pick_each os commits) s2 = (r, s')"
            by simp
          then show ?thesis
          proof (cases rule: awaitE)
            case (rej e)
            from rej(1) obtain r3 where "spawned s' = spawned s2 @ [git_call ?RL True r3]"
              and "\<not> exit_ok (git_call ?RL True r3)"
              by (rule listCommits_stepE) auto
            with rej(2) tr1 tr2 pf mb False show ?thesis
              by (intro no_list [of ?probe ?mb "git_call ?RL True r3"]) simp_all
          next
            case hang
            from hang(1) obtain r3 where "spawned s' = spawned s2 @ [git_call ?RL True r3]"
              and "\<not> exit_ok (git_call ?RL True r3)"
              by (rule listCommits_stepE) auto
            with hang(2) tr1 tr2 pf mb False show ?thesis
              by (intro no_list [of ?probe ?mb "git_call ?RL True r3"]) simp_all
          next
            case (val commits s3)
            from val(1) obtain r3 x3 where tr3: "spawned s3 = spawned s2 @ [git_call ?RL True r3]"
              and r3: "r3 = Resolved x3" "code x3 = 0"
                "commits = filter (\<lambda>l. l \<noteq> []) (split_on (CHR 0x0A) (trim (out x3)))"
              by (rule listCommits_stepE) auto
            let ?rl = "git_call ?RL True r3"
            have rl: "exit_ok ?rl"
              "filter (\<lambda>l. l \<noteq> []) (split_on (CHR 0x0A) (trim (stdout_of ?rl))) = commits"
              using r3 by simp_all
            have "\<exists>picks. spawned s' = spawned s3 @ picks
              \<and> map call_args picks = map cherry_pick (take (length picks) commits)
              \<and> list_all exit_ok (butlast picks)
              \<and> (r = Resolved () \<longrightarrow> length picks = length commits \<and> list_all exit_ok picks)
              \<and> (r \<noteq> Resolved () \<longrightarrow> picks \<noteq> [] \<and> \<not> exit_ok (last picks))
              \<and> (picks \<noteq> [] \<and> exit_failed (last picks) \<longrightarrow>
                   r = Rejected (Error msg_pick_conflict))"
            proof (cases "commits = []")
              case True
              with val(2) have "console_log ''   (no commits to pick)'' s3 = (r, s')"
                by simp
              from console_log_step [OF this] True show ?thesis
                by (intro exI [of _ "[]"]) simp
            next
              case False
              with val(2) have "pick_each os commits s3 = (r, s')" by simp
              from pick_each_shape [OF this] show ?thesis .
            qed
            then obtain picks where p: "spawned s' = spawned s3 @ picks"
              "map call_args picks = map cherry_pick (take (length picks) commits)"
              "list_all exit_ok (butlast picks)"
              "r = Resolved () \<longrightarrow> length picks = length commits \<and> list_all exit_ok picks"
              "r \<noteq> Resolved () \<longrightarrow> picks \<noteq> [] \<and> \<not> exit_ok (last picks)"
              "picks \<noteq> [] \<and> exit_failed (last picks) \<longrightarrow> r = Rejected (Error msg_pick_conflict)"
              by blast
            have "new_calls s s' = ?probe # ?mb # ?rl # picks"
              using tr1 tr2 tr3 p(1) by simp
            then show ?thesis
              using pf mb rl p(2-) False
              by (intro picked [of ?probe ?mb ?rl picks]) simp_all
          qed
        qed
      qed
    qed
  qed
qed




text \<open>
  C6. Pick mode: when a \<open>cherry-pick\<close> command of the application exits with a code other
  than 0, the application rejects with the conflict error, and that command is the last one
  the application spawned: no later commit of the topic is attempted, and no
  \<open>cherry-pick --abort\<close> or \<open>--skip\<close> (nor anything else) is issued after it.
\<close>

theorem applyPick_conflict_aborts:
  assumes "applyPick os topic baseRef s = (r, s')"
      and "c \<in> set (new_calls s s')"
      and "call_args c = cherry_pick x"
      and "exit_failed c"
  shows "r = Rejected (Error msg_pick_conflict)
       \<and> (\<exists>before. new_calls s s' = before @ [c] \<and> c \<notin> set before)
       \<and> (\<forall>d\<in>set (new_calls s s').
             call_args d \<noteq> [''cherry-pick'', ''--abort''] \<and>
             call_args d \<noteq> [''cherry-pick'', ''--skip''])"
  using assms(1)
proof (cases rule: applyPick_shape)
  case (skip p)
  with assms(2,3) show ?thesis by (auto simp: cherry_pick_def is_ancestor_probe_def)
next
  case (probe_died p)
  with assms(2,3) show ?thesis by (auto simp: cherry_pick_def is_ancestor_probe_def)
next
  case (no_base p mb)
  with assms(2,3) show ?thesis by (auto simp: cherry_pick_def is_ancestor_probe_def)
next
  case (no_list p mb rl)
  with assms(2,3) show ?thesis by (auto simp: cherry_pick_def is_ancestor_probe_def)
next
  case (picked p mb rl picks)
  from assms(2,3) picked(1,2,4,7) have cin: "c \<in> set picks"
    by (auto simp: cherry_pick_def is_ancestor_probe_def)
  then have ne: "picks \<noteq> []" by auto
  have nb: "c \<notin> set (butlast picks)"
    using picked(10) assms(4) by (auto simp: list_all_iff dest: exit_ok_not_failed)
  have "picks = butlast picks @ [last picks]"
    using ne by simp
  with cin nb have last: "last picks = c"
    by (metis Un_iff empty_iff empty_set insert_iff list.simps(15) set_append)
  with picked(13) ne assms(4) have res: "r = Rejected (Error msg_pick_conflict)" by simp
  have shape: "new_calls s s' = (p # mb # rl # butlast picks) @ [c]"
    using picked(1) ne last by (metis append_Cons append_butlast_last_id)
  have "c \<notin> set (p # mb # rl # butlast picks)"
    using nb assms(3,4) picked(2,4,5,7,8)
    by (auto simp: cherry_pick_def is_ancestor_probe_def dest: exit_ok_not_failed)
  with shape have pos: "\<exists>before. new_calls s s' = before @ [c] \<and> c \<notin> set before"
    by blast
  have "call_args d \<noteq> [''cherry-pick'', ''--abort''] \<and> call_args d \<noteq> [''cherry-pick'', ''--skip'']"
    if "d \<in> set (new_calls s s')" for d
  proof -
    from that picked(1) consider "d = p" | "d = mb" | "d = rl" | "d \<in> set picks" by auto
    then show ?thesis
    proof cases
      case 4
      then have "call_args d \<in> set (map call_args picks)" by simp
      with picked(9) obtain y where "call_args d = cherry_pick y" by auto
      then show ?thesis by (simp add: cherry_pick_def)
    qed (use picked(2,4,7) in \<open>simp_all add: is_ancestor_probe_def\<close>)
  qed
  with res pos show ?thesis by blast
qed

theorem applyPick_conflict_aborts_witness:
  "fst (applyPick sim_os ''origin/feature-x'' ''origin/develop-upstream''
         (sim_state [exits 1, prints ''b0'', prints (''c1'' @ [CHR 0x0A] @ ''c2'' @ [CHR 0x0A] @ ''c3''),
                     exits 0, fails 1 ''CONFLICT'', exits 0] [])) =
     Rejected (Error msg_pick_conflict)
   \<and> last (spawned (snd (applyPick sim_os ''origin/feature-x'' ''origin/develop-upstream''
         (sim_state [exits 1, prints ''b0'', prints (''c1'' @ [CHR 0x0A] @ ''c2'' @ [CHR 0x0A] @ ''c3''),
                     exits 0, fails 1 ''CONFLICT'', exits 0] [])))) =
       git_call [''cherry-pick'', ''-x'', ''c2''] False
         (Resolved \<lparr>code = 1, out = [], err = ''CONFLICT'' @ [CHR 0x0A]\<rparr>)"
proof -
  let ?s = "sim_state [exits 1, prints ''b0'',
      prints (''c1'' @ [CHR 0x0A] @ ''c2'' @ [CHR 0x0A] @ ''c3''), exits 0, fails 1 ''CONFLICT'',
      exits 0] []"
  let ?probe = "git_call (is_ancestor_probe ''origin/feature-x'') True
      (Resolved \<lparr>code = 1, out = [], err = []\<rparr>)"
  let ?mb = "git_call [''merge-base'', ''origin/feature-x'', ''origin/develop-upstream''] True
      (Resolved \<lparr>code = 0, out = ''b0'' @ [CHR 0x0A], err = []\<rparr>)"
  let ?rl = "git_call [''rev-list'', ''--reverse'', ''--ancestry-path'', ''b0..origin/feature-x'']
      True (Resolved \<lparr>code = 0, out = ''c1'' @ [CHR 0x0A] @ ''c2'' @ [CHR 0x0A] @ ''c3'' @ [CHR 0x0A],
                     err = []\<rparr>)"
  let ?p1 = "git_call (cherry_pick ''c1'') False (Resolved \<lparr>code = 0, out = [], err = []\<rparr>)"
  let ?p2 = "git_call (cherry_pick ''c2'') False
      (Resolved \<lparr>code = 1, out = [], err = ''CONFLICT'' @ [CHR 0x0A]\<rparr>)"
  let ?r = "fst (applyPick sim_os ''origin/feature-x'' ''origin/develop-upstream'' ?s)"
  let ?s' = "\<lparr>world = \<lparr>script = [exits 0], files = []\<rparr>, stdout = [],
      stderr = [''CONFLICT'' @ [CHR 0x0A]],
      spawned = [?probe, ?mb, ?rl, ?p1, ?p2]\<rparr>"
  have st: "snd (applyPick sim_os ''origin/feature-x'' ''origin/develop-upstream'' ?s) = ?s'"
    by (simp add: applyPick_def sim_eval is_ancestor_probe_def cherry_pick_def)
  then have run: "applyPick sim_os ''origin/feature-x'' ''origin/develop-upstream'' ?s = (?r, ?s')"
    by (metis prod.collapse)
  have mem: "?p2 \<in> set (new_calls ?s ?s')"
    by (simp add: new_calls_def sim_state_def)
  have args: "call_args ?p2 = cherry_pick ''c2''" by simp
  have failed: "exit_failed ?p2" by simp
  from applyPick_conflict_aborts [OF run mem args failed]
  have "?r = Rejected (Error msg_pick_conflict)" by blast
  with st show ?thesis
    by (simp add: cherry_pick_def)
qed

section \<open>Integration engine: merge and squash modes\<close>

text \<open>Every way an application in merge mode can go.\<close>

lemma applyMerge_shape:
  assumes "applyMerge os topic s = (r, s')"
  obtains
    (skip) probe where "new_calls s s' = [probe]"
      and "call_args probe = is_ancestor_probe topic" and "exit_ok probe" and "r = Resolved ()"
  | (probe_died) probe where "new_calls s s' = [probe]"
      and "call_args probe = is_ancestor_probe topic"
      and "\<not> exit_ok probe" and "\<not> exit_failed probe" and "r \<noteq> Resolved ()"
  | (merged) probe m where "new_calls s s' = [probe, m]"
      and "call_args probe = is_ancestor_probe topic" and "exit_failed probe"
      and "call_args m = [''merge'', ''--no-ff'', topic]"
      and "r = Resolved () \<longleftrightarrow> exit_ok m"
      and "exit_failed m \<longrightarrow> r = Rejected (git_failed [''merge'', ''--no-ff'', topic] (stderr_of m))"
proof -
  let ?P = "is_ancestor_probe topic"
  let ?M = "[''merge'', ''--no-ff'', topic]"
  from assms have "await (gitOk os ?P)
      (\<lambda>anc. if anc then console_log (''  '' @ glyph_bullet @ '' skip (already merged): '' @ topic)
         else await (git os ?M False) (\<lambda>_. resolve ())) s = (r, s')"
    by (simp add: applyMerge_def is_ancestor_probe_def)
  then show ?thesis
  proof (cases rule: awaitE)
    case (rej e)
    from rej(1) obtain rr where "spawned s' = spawned s @ [git_call ?P True rr]"
      and "rr = Rejected e"
      by (rule gitOk_stepE) auto
    with rej(2) show ?thesis
      by (intro probe_died [of "git_call ?P True rr"]) simp_all
  next
    case hang
    from hang(1) obtain rr where "spawned s' = spawned s @ [git_call ?P True rr]"
      and "rr = Pending"
      by (rule gitOk_stepE) auto
    with hang(2) show ?thesis
      by (intro probe_died [of "git_call ?P True rr"]) simp_all
  next
    case (val anc s1)
    from val(1) obtain rr x where tr1: "spawned s1 = spawned s @ [git_call ?P True rr]"
      and rr: "rr = Resolved x" and anc: "anc \<longleftrightarrow> code x = 0"
      by (rule gitOk_stepE) auto
    let ?probe = "git_call ?P True rr"
    show ?thesis
    proof (cases anc)
      case True
      with val(2) have "console_log (''  '' @ glyph_bullet @ '' skip (already merged): '' @ topic) s1
          = (r, s')"
        by simp
      from console_log_step [OF this] have "r = Resolved ()" and "spawned s' = spawned s1"
        by simp_all
      with tr1 rr anc True show ?thesis
        by (intro skip [of ?probe]) simp_all
    next
      case False
      then have pf: "exit_failed ?probe"
        using rr anc by simp
      from False val(2) have "await (git os ?M False) (\<lambda>_. resolve ()) s1 = (r, s')"
        by simp
      then show ?thesis
      proof (cases rule: awaitE)
        case (val v s2)
        from val(1) obtain r2 where "spawned s2 = spawned s1 @ [git_call ?M False r2]"
          and "exit_ok (git_call ?M False r2)"
          by (rule git_stepE) auto
        with val(2) tr1 pf show ?thesis
          by (intro merged [of ?probe "git_call ?M False r2"]) (auto simp: resolve_def)
      next
        case (rej e)
        from rej(1) obtain r2 where "spawned s' = spawned s1 @ [git_call ?M False r2]"
          and "\<not> exit_ok (git_call ?M False r2)"
          and "exit_failed (git_call ?M False r2) \<longrightarrow>
                 e = git_failed ?M (stderr_of (git_call ?M False r2))"
          by (rule git_stepE) auto
        with rej(2) tr1 pf show ?thesis
          by (intro merged [of ?probe "git_call ?M False r2"]) simp_all
      next
        case hang
        from hang(1) obtain r2 where "spawned s' = spawned s1 @ [git_call ?M False r2]"
          and "r2 = Pending"
          by (rule git_stepE) auto
        with hang(2) tr1 pf show ?thesis
          by (intro merged [of ?probe "git_call ?M False r2"]) simp_all
      qed
    qed
  qed
qed

text \<open>Every way an application in squash mode can go.\<close>

lemma applySquash_shape:
  assumes "applySquash os topic s = (r, s')"
  obtains
    (no_base) mb where "new_calls s s' = [mb]"
      and "call_args mb = [''merge-base'', ''HEAD'', topic]"
      and "\<not> exit_ok mb" and "r \<noteq> Resolved ()"
  | (diff_died) mb d where "new_calls s s' = [mb, d]"
      and "call_args mb = [''merge-base'', ''HEAD'', topic]" and "exit_ok mb"
      and "call_args d = [''diff'', ''--quiet'', trim (stdout_of mb) @ ''..'' @ topic, ''--'']"
      and "\<not> exit_ok d" and "\<not> exit_failed d" and "r \<noteq> Resolved ()"
  | (skip) mb d where "new_calls s s' = [mb, d]"
      and "call_args mb = [''merge-base'', ''HEAD'', topic]" and "exit_ok mb"
      and "call_args d = [''diff'', ''--quiet'', trim (stdout_of mb) @ ''..'' @ topic, ''--'']"
      and "exit_ok d" and "r = Resolved ()"
  | (squash_failed) mb d m where "new_calls s s' = [mb, d, m]"
      and "call_args mb = [''merge-base'', ''HEAD'', topic]" and "exit_ok mb"
      and "call_args d = [''diff'', ''--quiet'', trim (stdout_of mb) @ ''..'' @ topic, ''--'']"
      and "exit_failed d"
      and "call_args m = [''merge'', ''--squash'', ''--no-commit'', topic]"
      and "\<not> exit_ok m" and "r \<noteq> Resolved ()"
      and "exit_failed m \<longrightarrow> r = Rejected (Error msg_squash_conflict)"
  | (no_subject) mb d m l where "new_calls s s' = [mb, d, m, l]"
      and "call_args mb = [''merge-base'', ''HEAD'', topic]" and "exit_ok mb"
      and "call_args d = [''diff'', ''--quiet'', trim (stdout_of mb) @ ''..'' @ topic, ''--'']"
      and "exit_failed d"
      and "call_args m = [''merge'', ''--squash'', ''--no-commit'', topic]" and "exit_ok m"
      and "call_args l = [''log'', ''-1'', ''--pretty=%s'', topic]"
      and "\<not> exit_ok l" and "r \<noteq> Resolved ()"
  | (committed) mb d m l c where "new_calls s s' = [mb, d, m, l, c]"
      and "call_args mb = [''merge-base'', ''HEAD'', topic]" and "exit_ok mb"
      and "call_args d = [''diff'', ''--quiet'', trim (stdout_of mb) @ ''..'' @ topic, ''--'']"
      and "exit_failed d"
      and "call_args m = [''merge'', ''--squash'', ''--no-commit'', topic]" and "exit_ok m"
      and "call_args l = [''log'', ''-1'', ''--pretty=%s'', topic]" and "exit_ok l"
      and "call_args c =
        [''commit'',
         ''-m'', ''squash('' @ short_name topic @ ''): '' @ trim (stdout_of l),
         ''-m'', ''Squashed from '' @ [CHR 0x27] @ topic @ [CHR 0x27]]"
      and "r = Resolved () \<longleftrightarrow> exit_ok c"
proof -
  let ?MB = "[''merge-base'', ''HEAD'', topic]"
  let ?D = "\<lambda>common. [''diff'', ''--quiet'', common @ ''..'' @ topic, ''--'']"
  let ?M = "[''merge'', ''--squash'', ''--no-commit'', topic]"
  let ?L = "[''log'', ''-1'', ''--pretty=%s'', topic]"
  let ?C = "\<lambda>subj. [''commit'', ''-m'', ''squash('' @ short_name topic @ ''): '' @ subj,
      ''-m'', ''Squashed from '' @ [CHR 0x27] @ topic @ [CHR 0x27]]"
  let ?after_m = "\<lambda>m. if code m \<noteq> 0 then throw (Error msg_squash_conflict)
       else await (git os ?L True) (\<lambda>headSubj.
            await (git os (?C headSubj) False) (\<lambda>_. resolve ()))"
  let ?after_d = "\<lambda>diff.
       if code diff = 0 then console_log (''  '' @ glyph_bullet @ '' skip (no diff): '' @ topic)
       else await (run os ''git'' ?M False) ?after_m"
  from assms have "await (mergeBase os ''HEAD'' topic) (\<lambda>common.
      await (run os ''git'' (?D common) True) ?after_d) s = (r, s')"
    by (simp add: applySquash_def)
  then show ?thesis
  proof (cases rule: awaitE)
    case (rej e)
    from rej(1) obtain r1 where "spawned s' = spawned s @ [git_call ?MB True r1]"
      and "\<not> exit_ok (git_call ?MB True r1)"
      unfolding mergeBase_def by (rule git_stepE) auto
    with rej(2) show ?thesis
      by (intro no_base [of "git_call ?MB True r1"]) simp_all
  next
    case hang
    from hang(1) obtain r1 where "spawned s' = spawned s @ [git_call ?MB True r1]"
      and "\<not> exit_ok (git_call ?MB True r1)"
      unfolding mergeBase_def by (rule git_stepE) auto
    with hang(2) show ?thesis
      by (intro no_base [of "git_call ?MB True r1"]) simp_all
  next
    case (val common s1)
    from val(1) obtain r1 x1 where tr1: "spawned s1 = spawned s @ [git_call ?MB True r1]"
      and r1: "r1 = Resolved x1" "code x1 = 0" "common = trim (out x1)"
      unfolding mergeBase_def by (rule git_stepE) auto
    let ?mb = "git_call ?MB True r1"
    have mb: "exit_ok ?mb" "trim (stdout_of ?mb) = common"
      using r1 by simp_all
    from val(2) show ?thesis
    proof (cases rule: awaitE)
      case (rej e)
      from rej(1) have "spawned s' = spawned s1 @ [git_call (?D common) True (Rejected e)]"
        by (rule run_stepE)
      with rej(2) tr1 mb show ?thesis
        by (intro diff_died [of ?mb "git_call (?D common) True (Rejected e)"]) simp_all
    next
      case hang
      from hang(1) have "spawned s' = spawned s1 @ [git_call (?D common) True Pending]"
        by (rule run_stepE)
      with hang(2) tr1 mb show ?thesis
        by (intro diff_died [of ?mb "git_call (?D common) True Pending"]) simp_all
    next
      case (val diff s2)
      from val(1) have tr2: "spawned s2 = spawned s1 @ [git_call (?D common) True (Resolved diff)]"
        by (rule run_stepE)
      let ?d = "git_call (?D common) True (Resolved diff)"
      show ?thesis
      proof (cases "code diff = 0")
        case True
        with val(2) have "console_log (''  '' @ glyph_bullet @ '' skip (no diff): '' @ topic) s2
            = (r, s')"
          by simp
        from console_log_step [OF this] have "r = Resolved ()" and "spawned s' = spawned s2"
          by simp_all
        with tr1 tr2 mb True show ?thesis
          by (intro skip [of ?mb ?d]) simp_all
      next
        case False
        then have df: "exit_failed ?d" by simp
        from False val(2) have "await (run os ''git'' ?M False) ?after_m s2 = (r, s')"
          by simp
        then show ?thesis
        proof (cases rule: awaitE)
          case (rej e)
          from rej(1) have "spawned s' = spawned s2 @ [git_call ?M False (Rejected e)]"
            by (rule run_stepE)
          with rej(2) tr1 tr2 mb df show ?thesis
            by (intro squash_failed [of ?mb ?d "git_call ?M False (Rejected e)"]) simp_all
        next
          case hang
          from hang(1) have "spawned s' = spawned s2 @ [git_call ?M False Pending]"
            by (rule run_stepE)
          with hang(2) tr1 tr2 mb df show ?thesis
            by (intro squash_failed [of ?mb ?d "git_call ?M False Pending"]) simp_all
        next
          case (val m s3)
          from val(1) have tr3: "spawned s3 = spawned s2 @ [git_call ?M False (Resolved m)]"
            by (rule run_stepE)
          let ?m = "git_call ?M False (Resolved m)"
          show ?thesis
          proof (cases "code m = 0")
            case False
            with val(2) have "r = Rejected (Error msg_squash_conflict)" "s' = s3"
              by (simp_all add: throw_def)
            with tr1 tr2 tr3 mb df False show ?thesis
              by (intro squash_failed [of ?mb ?d ?m]) simp_all
          next
            case True
            then have mok: "exit_ok ?m" by simp
            from True val(2) have "await (git os ?L True) (\<lambda>headSubj.
                await (git os (?C headSubj) False) (\<lambda>_. resolve ())) s3 = (r, s')"
              by simp
            then show ?thesis
            proof (cases rule: awaitE)
              case (rej e)
              from rej(1) obtain r4 where "spawned s' = spawned s3 @ [git_call ?L True r4]"
                and "\<not> exit_ok (git_call ?L True r4)"
                by (rule git_stepE) auto
              with rej(2) tr1 tr2 tr3 mb df mok show ?thesis
                by (intro no_subject [of ?mb ?d ?m "git_call ?L True r4"]) simp_all
            next
              case hang
              from hang(1) obtain r4 where "spawned s' = spawned s3 @ [git_call ?L True r4]"
                and "\<not> exit_ok (git_call ?L True r4)"
                by (rule git_stepE) auto
              with hang(2) tr1 tr2 tr3 mb df mok show ?thesis
                by (intro no_subject [of ?mb ?d ?m "git_call ?L True r4"]) simp_all
            next
              case (val subj s4)
              from val(1) obtain r4 x4 where tr4: "spawned s4 = spawned s3 @ [git_call ?L True r4]"
                and r4: "r4 = Resolved x4" "code x4 = 0" "subj = trim (out x4)"
                by (rule git_stepE) auto
              let ?l = "git_call ?L True r4"
              have l: "exit_ok ?l" "trim (stdout_of ?l) = subj"
                using r4 by simp_all
              from val(2) show ?thesis
              proof (cases rule: awaitE)
                case (val v s5)
                from val(1) obtain r5 where "spawned s5 = spawned s4 @ [git_call (?C subj) False r5]"
                  and "exit_ok (git_call (?C subj) False r5)"
                  by (rule git_stepE) auto
                with val(2) tr1 tr2 tr3 tr4 mb df mok l show ?thesis
                  by (intro committed [of ?mb ?d ?m ?l "git_call (?C subj) False r5"])
                    (auto simp: resolve_def)
              next
                case (rej e)
                from rej(1) obtain r5 where "spawned s' = spawned s4 @ [git_call (?C subj) False r5]"
                  and "\<not> exit_ok (git_call (?C subj) False r5)"
                  by (rule git_stepE) auto
                with rej(2) tr1 tr2 tr3 tr4 mb df mok l show ?thesis
                  by (intro committed [of ?mb ?d ?m ?l "git_call (?C subj) False r5"]) simp_all
              next
                case hang
                from hang(1) obtain r5 where "spawned s' = spawned s4 @ [git_call (?C subj) False r5]"
                  and "\<not> exit_ok (git_call (?C subj) False r5)"
                  by (rule git_stepE) auto
                with hang(2) tr1 tr2 tr3 tr4 mb df mok l show ?thesis
                  by (intro committed [of ?mb ?d ?m ?l "git_call (?C subj) False r5"]) simp_all
              qed
            qed
          qed
        qed
      qed
    qed
  qed
qed

lemma split_on_not_Nil [simp]: "split_on c s \<noteq> []"
  by (cases s) simp_all








section \<open>The check before a topic is applied\<close>

text \<open>
  C2 as stated asks for an ancestry probe in every mode. In squash mode the engine issues
  none: here a topic is squashed and committed, and the log holds \<open>merge-base HEAD <topic>\<close>
  and \<open>diff --quiet\<close> but no \<open>merge-base --is-ancestor\<close>.
\<close>

theorem squash_mode_issues_no_ancestry_probe:
  "fst (apply_topic sim_os default_config ''origin/feature-x''
         (sim_state [prints ''b0'', exits 1, exits 0, prints ''Add widget'', exits 0] [])) =
     Resolved ()
   \<and> map call_args (spawned (snd (apply_topic sim_os default_config ''origin/feature-x''
         (sim_state [prints ''b0'', exits 1, exits 0, prints ''Add widget'', exits 0] [])))) =
       [[''merge-base'', ''HEAD'', ''origin/feature-x''],
        [''diff'', ''--quiet'', ''b0..origin/feature-x'', ''--''],
        [''merge'', ''--squash'', ''--no-commit'', ''origin/feature-x''],
        [''log'', ''-1'', ''--pretty=%s'', ''origin/feature-x''],
        [''commit'', ''-m'', ''squash(feature-x): Add widget'',
         ''-m'', ''Squashed from '' @ [CHR 0x27] @ ''origin/feature-x'' @ [CHR 0x27]]]
   \<and> is_ancestor_probe ''origin/feature-x'' \<notin>
       set (map call_args (spawned (snd (apply_topic sim_os default_config ''origin/feature-x''
         (sim_state [prints ''b0'', exits 1, exits 0, prints ''Add widget'', exits 0] [])))))"
proof -
  have sn: "short_name ''origin/feature-x'' = ''feature-x''"
    by (simp add: short_name_def)
  have "apply_topic sim_os default_config ''origin/feature-x''
         (sim_state [prints ''b0'', exits 1, exits 0, prints ''Add widget'', exits 0] []) =
     (Resolved (),
      \<lparr>world = \<lparr>script = [], files = []\<rparr>, stdout = [], stderr = [],
       spawned =
        [git_call [''merge-base'', ''HEAD'', ''origin/feature-x''] True
           (Resolved \<lparr>code = 0, out = ''b0'' @ [CHR 0x0A], err = []\<rparr>),
         git_call [''diff'', ''--quiet'', ''b0..origin/feature-x'', ''--''] True
           (Resolved \<lparr>code = 1, out = [], err = []\<rparr>),
         git_call [''merge'', ''--squash'', ''--no-commit'', ''origin/feature-x''] False
           (Resolved \<lparr>code = 0, out = [], err = []\<rparr>),
         git_call [''log'', ''-1'', ''--pretty=%s'', ''origin/feature-x''] True
           (Resolved \<lparr>code = 0, out = ''Add widget'' @ [CHR 0x0A], err = []\<rparr>),
         git_call [''commit'', ''-m'', ''squash(feature-x): Add widget'',
             ''-m'', ''Squashed from '' @ [CHR 0x27] @ ''origin/feature-x'' @ [CHR 0x27]] False
           (Resolved \<lparr>code = 0, out = [], err = []\<rparr>)]\<rparr>)"
    by (simp add: apply_topic_def default_config_def applySquash_def sim_eval sn)
  then show ?thesis
    by (simp add: is_ancestor_probe_def)
qed

text \<open>
  C2, amended. In merge and pick mode the first command of an application is the ancestry
  probe \<open>merge-base --is-ancestor <topic> HEAD\<close>, and when it exits with 0 the topic is
  skipped: nothing else is spawned and the application resolves. In squash mode (any other
  mode string) no ancestry probe is issued; the check there is the diff: after
  \<open>merge-base HEAD <topic>\<close> comes \<open>diff --quiet <common>..<topic> --\<close>, and when that exits
  with 0 the topic is skipped in the same way.
\<close>

theorem apply_topic_checks_before_applying:
  assumes "apply_topic os cfg topic s = (r, s')"
  shows "(MODE cfg = ''merge'' \<or> MODE cfg = ''pick'' \<longrightarrow>
           (\<exists>probe rest. new_calls s s' = probe # rest
              \<and> call_args probe = is_ancestor_probe topic
              \<and> (exit_ok probe \<longrightarrow> rest = [] \<and> r = Resolved ())))
       \<and> (MODE cfg \<noteq> ''merge'' \<and> MODE cfg \<noteq> ''pick'' \<longrightarrow>
           (\<forall>c\<in>set (new_calls s s'). call_args c \<noteq> is_ancestor_probe topic)
         \<and> (\<exists>mb rest. new_calls s s' = mb # rest
              \<and> call_args mb = [''merge-base'', ''HEAD'', topic]
              \<and> (\<forall>d rest'. rest = d # rest' \<longrightarrow>
                    call_args d =
                      [''diff'', ''--quiet'', trim (stdout_of mb) @ ''..'' @ topic, ''--'']
                    \<and> (exit_ok d \<longrightarrow> rest' = [] \<and> r = Resolved ()))))"
proof -
  have merge: ?thesis if m: "MODE cfg = ''merge''"
  proof -
    from assms m have "applyMerge os topic s = (r, s')"
      by (simp add: apply_topic_def)
    then show ?thesis
      by (cases rule: applyMerge_shape) (use m in \<open>auto dest: exit_ok_not_failed\<close>)
  qed
  have pick: ?thesis if m: "MODE cfg = ''pick''"
  proof -
    from assms m have "applyPick os topic (BASE_REF cfg) s = (r, s')"
      by (simp add: apply_topic_def)
    then show ?thesis
      by (cases rule: applyPick_shape) (use m in \<open>auto dest: exit_ok_not_failed\<close>)
  qed
  have squash: ?thesis if m: "MODE cfg \<noteq> ''merge''" "MODE cfg \<noteq> ''pick''"
  proof -
    from assms m have "applySquash os topic s = (r, s')"
      by (simp add: apply_topic_def)
    then show ?thesis
      by (cases rule: applySquash_shape)
        (use m in \<open>auto simp: is_ancestor_probe_def dest: exit_ok_not_failed\<close>)
  qed
  from merge pick squash show ?thesis by blast
qed

theorem apply_topic_checks_before_applying_witness:
  "apply_topic sim_os merge_config ''origin/feature-x'' (sim_state [exits 0, exits 0] []) =
     (Resolved (),
      \<lparr>world = \<lparr>script = [exits 0], files = []\<rparr>,
       stdout = [''  '' @ glyph_bullet @ '' skip (already merged): origin/feature-x'' @ [CHR 0x0A]],
       stderr = [],
       spawned = [git_call (is_ancestor_probe ''origin/feature-x'') True
                    (Resolved \<lparr>code = 0, out = [], err = []\<rparr>)]\<rparr>)"
proof -
  let ?s = "sim_state [exits 0, exits 0] []"
  let ?r = "fst (apply_topic sim_os merge_config ''origin/feature-x'' ?s)"
  let ?probe = "git_call (is_ancestor_probe ''origin/feature-x'') True
      (Resolved \<lparr>code = 0, out = [], err = []\<rparr>)"
  let ?s' = "\<lparr>world = \<lparr>script = [exits 0], files = []\<rparr>,
       stdout = [''  '' @ glyph_bullet @ '' skip (already merged): origin/feature-x'' @ [CHR 0x0A]],
       stderr = [], spawned = [?probe]\<rparr>"
  have st: "snd (apply_topic sim_os merge_config ''origin/feature-x'' ?s) = ?s'"
    by (simp add: apply_topic_def merge_config_def default_config_def applyMerge_def sim_eval
        is_ancestor_probe_def)
  then have run: "apply_topic sim_os merge_config ''origin/feature-x'' ?s = (?r, ?s')"
    by (metis prod.collapse)
  have mode: "MODE merge_config = ''merge''"
    by (simp add: merge_config_def)
  have calls: "new_calls ?s ?s' = [?probe]"
    by (simp add: new_calls_def sim_state_def)
  from apply_topic_checks_before_applying [OF run] mode calls
  have "exit_ok ?probe \<longrightarrow> ?r = Resolved ()" by auto
  then have "?r = Resolved ()" by simp
  with run show ?thesis by simp
qed

section \<open>Composition of log properties\<close>













subsection \<open>Every step only appends to the log\<close>










section \<open>Transport failures\<close>








lemma not_transport [simp]:
  "\<not> transport (''rev-parse'' # as)"
  "\<not> transport (''show-ref'' # as)"
  "\<not> transport (''merge-base'' # as)"
  "\<not> transport (''diff'' # as)"
  "\<not> transport (''merge'' # as)"
  "\<not> transport (''cherry-pick'' # as)"
  "\<not> transport (''clone'' # as)"
  "\<not> transport (''-C'' # as)"
  by (simp_all add: transport_def)












section \<open>Running the pipeline twice\<close>


section \<open>Topics detected as integrated\<close>



lemma integration_check_simps [simp]:
  "integration_check (is_ancestor_probe topic)"
  "integration_check (''diff'' # ''--quiet'' # as)"
  by (simp_all add: integration_check_def is_ancestor_probe_def)







section \<open>The reset before the topic loop\<close>












lemma not_check [simp]:
  "\<not> integration_check (''status'' # as)"
  "\<not> integration_check (''fetch'' # as)"
  "\<not> integration_check (''rev-parse'' # as)"
  "\<not> integration_check (''show-ref'' # as)"
  "\<not> integration_check (''switch'' # as)"
  "\<not> integration_check (''reset'' # as)"
  "\<not> integration_check (''add'' # as)"
  "\<not> integration_check (''clone'' # as)"
  "\<not> integration_check (''-C'' # as)"
  "\<not> integration_check (''commit'' # as)"
  "\<not> integration_check (''push'' # as)"
  "\<not> integration_check (''diff'' # ''--cached'' # as)"
  "\<not> integration_check (verify_commit ref)"
  by (simp_all add: integration_check_def verify_commit_def)

lemma not_creating [simp]:
  "\<not> commit_creating (''show-ref'' # as)"
  "\<not> commit_creating (''push'' # as)"
  by (simp_all add: commit_creating_def)
























end

